theory Spec2Isabelle
  imports Complex_Main
begin

section \<open>JavaScript values used by the viewer and the server\<close>

text \<open>
  A JavaScript number is an IEEE 754 double. The model keeps the special values apart
  (\<open>NaN\<close>, the two infinities, negative zero) and represents every other value by the
  real number it denotes; \<open>Fin 0\<close> is positive zero. The result of an arithmetic
  operation is the exact result rounded to the nearest double, ties to even: it
  overflows to an infinity and underflows through the subnormal numbers to zero.
\<close>

datatype jsnum = NaN | PInf | NInf | NZero | Fin real

fun isNaN :: "jsnum \<Rightarrow> bool" where
  "isNaN NaN = True"
| "isNaN _ = False"

fun isInf :: "jsnum \<Rightarrow> bool" where
  "isInf PInf = True"
| "isInf NInf = True"
| "isInf _ = False"

text \<open>The global \<open>isFinite\<close> on a number: neither NaN nor an infinity.\<close>

fun isFinite :: "jsnum \<Rightarrow> bool" where
  "isFinite (Fin r) = True"
| "isFinite NZero = True"
| "isFinite _ = False"

fun isZero :: "jsnum \<Rightarrow> bool" where
  "isZero NZero = True"
| "isZero (Fin r) = (r = 0)"
| "isZero _ = False"

text \<open>The sign bit (meaningless on NaN, where it is never consulted).\<close>

fun negative :: "jsnum \<Rightarrow> bool" where
  "negative NInf = True"
| "negative NZero = True"
| "negative (Fin r) = (r < 0)"
| "negative _ = False"

text \<open>The real value of a finite number.\<close>

fun val :: "jsnum \<Rightarrow> real" where
  "val (Fin r) = r"
| "val _ = 0"

definition signedInf :: "bool \<Rightarrow> jsnum" where
  "signedInf neg = (if neg then NInf else PInf)"

definition signedZero :: "bool \<Rightarrow> jsnum" where
  "signedZero neg = (if neg then NZero else Fin 0)"

text \<open>Two to an integer power.\<close>

definition pow2 :: "int \<Rightarrow> real" where
  "pow2 e = (if 0 \<le> e then 2 ^ nat e else 1 / 2 ^ nat (- e))"

text \<open>
  The exponent of the binade of a magnitude \<open>a\<close>: the largest \<open>e\<close> from -1022 to 1025
  with \<open>2 ^ e \<le> a\<close>, found bit by bit from the highest of eleven bits, and -1022 (the
  exponent of the subnormal numbers) when there is none.
\<close>

fun search :: "nat \<Rightarrow> int \<Rightarrow> real \<Rightarrow> int" where
  "search 0 e a = e"
| "search (Suc k) e a = search k (if pow2 (e + 2 ^ k) \<le> a then e + 2 ^ k else e) a"

definition binade :: "real \<Rightarrow> int" where
  "binade a = search 11 (- 1022) a"

text \<open>The nearest integer, the even one of two that are equally near.\<close>

definition roundHalfEven :: "real \<Rightarrow> int" where
  "roundHalfEven y =
     (let f = \<lfloor>y\<rfloor>; d = y - of_int f
      in if d < 1 / 2 then f else if 1 / 2 < d then f + 1 else if even f then f else f + 1)"

text \<open>
  The double nearest to a real number (binary64, round to nearest, ties to even). A
  double with exponent \<open>e\<close> is a multiple of \<open>2 ^ (e - 52)\<close>, so the magnitude is rounded
  to a multiple of that quantum; a result of \<open>2 ^ 1024\<close> or more is an infinity, and a
  result of zero keeps the sign.
\<close>

definition toDouble :: "real \<Rightarrow> jsnum" where
  "toDouble x =
     (let a = \<bar>x\<bar>; q = pow2 (binade a - 52); n = roundHalfEven (a / q)
      in if pow2 1024 \<le> of_int n * q then signedInf (x < 0)
         else if n = 0 then signedZero (x < 0)
         else Fin (if x < 0 then - (of_int n * q) else of_int n * q))"

text \<open>The least magnitude that rounds to an infinity: \<open>2 ^ 1024 - 2 ^ 970\<close>.\<close>

definition overflowThreshold :: real where
  "overflowThreshold = (2 ^ 54 - 1) * pow2 970"

text \<open>
  The operator \<open>/\<close>: NaN is contagious, \<open>Infinity / Infinity\<close> and \<open>0 / 0\<close> are NaN,
  a non-zero number over zero is an infinity, a finite number over an infinity is a
  zero, and the sign of the result is the exclusive or of the signs; the quotient of
  two finite non-zero numbers is the exact quotient rounded to a double.
\<close>

definition jsDiv :: "jsnum \<Rightarrow> jsnum \<Rightarrow> jsnum" where
  "jsDiv a b =
     (if isNaN a \<or> isNaN b then NaN
      else if isInf a then (if isInf b then NaN else signedInf (negative a \<noteq> negative b))
      else if isInf b then signedZero (negative a \<noteq> negative b)
      else if isZero b then (if isZero a then NaN else signedInf (negative a \<noteq> negative b))
      else if isZero a then signedZero (negative a \<noteq> negative b)
      else toDouble (val a / val b))"

text \<open>The comparison \<open><\<close> on numbers: false when either side is NaN; both zeros are equal.\<close>

fun jsLess :: "jsnum \<Rightarrow> jsnum \<Rightarrow> bool" where
  "jsLess NaN _ = False"
| "jsLess _ NaN = False"
| "jsLess PInf _ = False"
| "jsLess _ NInf = False"
| "jsLess NInf _ = True"
| "jsLess _ PInf = True"
| "jsLess a b = (val a < val b)"

text \<open>\<open>Math.min\<close> of two arguments: NaN if either is NaN, and \<open>-0\<close> is below \<open>+0\<close>.\<close>

definition mathMin :: "jsnum \<Rightarrow> jsnum \<Rightarrow> jsnum" where
  "mathMin a b =
     (if isNaN a \<or> isNaN b then NaN
      else if jsLess a b then a
      else if jsLess b a then b
      else if negative a then a else b)"

text \<open>The test \<open>x <= 0\<close>.\<close>

fun jsLeZero :: "jsnum \<Rightarrow> bool" where
  "jsLeZero NaN = False"
| "jsLeZero PInf = False"
| "jsLeZero NInf = True"
| "jsLeZero NZero = True"
| "jsLeZero (Fin r) = (r \<le> 0)"

text \<open>Truthiness of a number: everything but NaN and the two zeros.\<close>

definition truthyNum :: "jsnum \<Rightarrow> bool" where
  "truthyNum x = (\<not> isNaN x \<and> \<not> isZero x)"

section \<open>player-viewer.js: the progress string\<close>

text \<open>
  \<open>visitedPages\<close> is a JavaScript array of booleans. An assignment past its end leaves
  holes, which \<open>map\<close> skips and \<open>join\<close> prints as the empty string, so an element is
  \<open>None\<close> (a hole) or \<open>Some b\<close>. Strings are lists of characters, one per code unit.
\<close>

type_synonym jsarray = "bool option list"

text \<open>\<open>visitedPages.map(v => v ? "1" : "0").join("")\<close>\<close>

definition encode :: "jsarray \<Rightarrow> string" where
  "encode visitedPages =
     concat (map (\<lambda>v. case v of None \<Rightarrow> [] | Some b \<Rightarrow> if b then ''1'' else ''0'') visitedPages)"

text \<open>
  The restore step of \<open>startViewerWithPdf\<close>: the array starts as
  \<open>Array(totalPages).fill(false)\<close> and is replaced by
  \<open>suspend.split("").map(c => c === "1")\<close> only if \<open>suspend\<close> is truthy (non-empty) and
  \<open>suspend.length === totalPages\<close>.
\<close>

definition decode :: "string \<Rightarrow> nat \<Rightarrow> jsarray" where
  "decode suspend totalPages =
     (if suspend \<noteq> [] \<and> length suspend = totalPages
      then map (\<lambda>c. Some (c = CHR ''1'')) suspend
      else replicate totalPages (Some False))"

section \<open>player-viewer.js: fit-to-screen scale\<close>

text \<open>\<open>a || b\<close> on numbers, as in \<open>window.innerWidth || document.documentElement.clientWidth\<close>.\<close>

definition orElse :: "jsnum \<Rightarrow> jsnum \<Rightarrow> jsnum" where
  "orElse a b = (if truthyNum a then a else b)"

text \<open>
  Lines 127-128 of \<open>renderPage\<close>:
  \<open>let scale = Math.min(wrapperW / pdfW, wrapperH / pdfH);
  if (!isFinite(scale) || scale <= 0) scale = 1;\<close>
\<close>

definition fitScale :: "jsnum \<Rightarrow> jsnum \<Rightarrow> jsnum \<Rightarrow> jsnum \<Rightarrow> jsnum" where
  "fitScale wrapperW wrapperH pdfW pdfH =
     (let scale = mathMin (jsDiv wrapperW pdfW) (jsDiv wrapperH pdfH)
      in if \<not> isFinite scale \<or> jsLeZero scale then Fin 1 else scale)"

section \<open>player-viewer.js: session state and rendering\<close>

text \<open>\<open>String(n)\<close> for an integer: its decimal digits, with a minus sign when negative.\<close>

fun digits :: "nat \<Rightarrow> string" where
  "digits n = (if n < 10 then [char_of (48 + n)] else digits (n div 10) @ [char_of (48 + n mod 10)])"

declare digits.simps [simp del]

definition showInt :: "int \<Rightarrow> string" where
  "showInt i = (if i < 0 then CHR ''-'' # digits (nat (- i)) else digits (nat i))"

text \<open>
  \<open>visitedPages[i]\<close> read for its truthiness, and \<open>visitedPages[i] = v\<close>. A read outside
  the elements is \<open>undefined\<close>; a write past the end extends the array with holes; a
  write at a negative index creates a property that is not an element, so the elements
  stay as they are.
\<close>

definition truthyAt :: "jsarray \<Rightarrow> int \<Rightarrow> bool" where
  "truthyAt xs i = (0 \<le> i \<and> nat i < length xs \<and> xs ! nat i = Some True)"

definition arraySet :: "jsarray \<Rightarrow> int \<Rightarrow> bool \<Rightarrow> jsarray" where
  "arraySet xs i v =
     (if i < 0 then xs
      else if nat i < length xs then xs[nat i := Some v]
      else xs @ replicate (nat i - length xs) None @ [Some v])"

text \<open>The SCORM API object found by \<open>findAPI\<close>, tagged with the version recorded for it.\<close>

datatype scormVersion = V12 | V2004

text \<open>
  What the viewer does to its surroundings, in order: the pdf.js calls, the canvas
  operations, the calls on the LMS API and the console. \<open>SetCanvasSize p scale\<close> is the
  pair of assignments that give the canvas the size of page \<open>p\<close>'s viewport at \<open>scale\<close>.
\<close>

datatype effect =
    GetPage int
  | SetCanvasSize int jsnum
  | ClearRect
  | PageRender int jsnum
  | LmsSetValue string string
  | LmsCommit
  | ConsoleLog string
  | ConsoleError string
  | DestroyDoc

text \<open>
  A promise that has not settled yet: \<open>pdfDoc.getPage(pageNumber)\<close>, or
  \<open>page.render(renderContext).promise\<close> for that page.
\<close>

datatype task = AwaitPage int | AwaitRaster int

record pdfdoc =
  numPages :: nat
  url :: string

text \<open>
  The module's variables (\<open>pdfDoc\<close> is \<open>None\<close> for \<open>null\<close>), the window's dimensions,
  the promises in flight and the trace of effects so far.
\<close>

record viewer =
  pdfDoc :: "pdfdoc option"
  currentPage :: int
  totalPages :: int
  isRendering :: bool
  currPage :: int
  visitedPages :: jsarray
  lastPdfUrl :: "string option"
  scormAPI :: "scormVersion option"
  innerWidth :: jsnum
  innerHeight :: jsnum
  clientWidth :: jsnum
  clientHeight :: jsnum
  pending :: "task list"
  trace :: "effect list"

definition emit :: "effect list \<Rightarrow> viewer \<Rightarrow> viewer" where
  "emit es s = s\<lparr>trace := trace s @ es\<rparr>"

text \<open>\<open>setSCORMValue(a, b, v)\<close> and \<open>commitSCORM()\<close>: nothing without an API object.\<close>

definition setSCORMValue :: "string \<Rightarrow> string \<Rightarrow> string \<Rightarrow> viewer \<Rightarrow> viewer" where
  "setSCORMValue a b v s =
     (case scormAPI s of
        None \<Rightarrow> s
      | Some V12 \<Rightarrow> emit [LmsSetValue a v] s
      | Some V2004 \<Rightarrow> emit [LmsSetValue b v] s)"

definition commitSCORM :: "viewer \<Rightarrow> viewer" where
  "commitSCORM s = (case scormAPI s of None \<Rightarrow> s | Some _ \<Rightarrow> emit [LmsCommit] s)"

text \<open>
  \<open>renderPage(pageNumber)\<close> up to the point where it returns: the two guards, the two
  assignments and the call of \<open>getPage\<close>, whose promise stays pending.
\<close>

definition renderPage :: "int \<Rightarrow> viewer \<Rightarrow> viewer" where
  "renderPage pageNumber s =
     (if pdfDoc s = None \<or> isRendering s then s
      else if currPage s = pageNumber then s
      else emit [GetPage pageNumber]
             (s\<lparr>currPage := pageNumber, isRendering := True,
                pending := pending s @ [AwaitPage pageNumber]\<rparr>))"

text \<open>
  The fulfilment callback of \<open>getPage\<close> (lines 118-143), given the page's unscaled
  viewport: compute the scale, size and clear the canvas, start the raster.
\<close>

definition onPage :: "int \<Rightarrow> jsnum \<Rightarrow> jsnum \<Rightarrow> viewer \<Rightarrow> viewer" where
  "onPage pageNumber pdfW pdfH s =
     (let wrapperW = orElse (innerWidth s) (clientWidth s);
          wrapperH = orElse (innerHeight s) (clientHeight s);
          scale = fitScale wrapperW wrapperH pdfW pdfH
      in emit [SetCanvasSize pageNumber scale, ClearRect, PageRender pageNumber scale]
           (s\<lparr>pending := pending s @ [AwaitRaster pageNumber]\<rparr>))"

text \<open>The rejection handler of \<open>getPage\<close> (lines 158-161).\<close>

definition onPageError :: "viewer \<Rightarrow> viewer" where
  "onPageError s = (emit [ConsoleError ''getPage error''] s)\<lparr>isRendering := False\<rparr>"

text \<open>The fulfilment callback of the raster (lines 143-154).\<close>

definition onRendered :: "int \<Rightarrow> viewer \<Rightarrow> viewer" where
  "onRendered pageNumber s =
     (let s1 = s\<lparr>isRendering := False\<rparr>;
          s2 = (if \<not> truthyAt (visitedPages s1) (pageNumber - 1)
                then s1\<lparr>visitedPages := arraySet (visitedPages s1) (pageNumber - 1) True\<rparr>
                else s1);
          dataString = encode (visitedPages s2);
          s3 = setSCORMValue ''cmi.suspend_data'' ''cmi.suspend_data'' dataString s2;
          s4 = setSCORMValue ''cmi.core.lesson_location'' ''cmi.location'' (showInt pageNumber) s3
      in commitSCORM s4)"

text \<open>The rejection handler of the raster (lines 154-157).\<close>

definition onRenderError :: "viewer \<Rightarrow> viewer" where
  "onRenderError s = (emit [ConsoleError ''Render error''] s)\<lparr>isRendering := False\<rparr>"

text \<open>
  The host settles a pending promise and runs its handler. An event for a promise that
  is not pending does not happen; the step leaves the state as it is.
\<close>

datatype event =
    PageResolved int jsnum jsnum
  | PageRejected int
  | RasterResolved int
  | RasterRejected int

fun step :: "event \<Rightarrow> viewer \<Rightarrow> viewer" where
  "step (PageResolved p pdfW pdfH) s =
     (if AwaitPage p \<in> set (pending s)
      then onPage p pdfW pdfH (s\<lparr>pending := remove1 (AwaitPage p) (pending s)\<rparr>) else s)"
| "step (PageRejected p) s =
     (if AwaitPage p \<in> set (pending s)
      then onPageError (s\<lparr>pending := remove1 (AwaitPage p) (pending s)\<rparr>) else s)"
| "step (RasterResolved p) s =
     (if AwaitRaster p \<in> set (pending s)
      then onRendered p (s\<lparr>pending := remove1 (AwaitRaster p) (pending s)\<rparr>) else s)"
| "step (RasterRejected p) s =
     (if AwaitRaster p \<in> set (pending s)
      then onRenderError (s\<lparr>pending := remove1 (AwaitRaster p) (pending s)\<rparr>) else s)"

fun settle :: "event list \<Rightarrow> viewer \<Rightarrow> viewer" where
  "settle [] s = s"
| "settle (e # es) s = settle es (step e s)"

text \<open>\<open>window.playerViewer.next\<close> and \<open>window.playerViewer.prev\<close>.\<close>

definition playerViewer_next :: "viewer \<Rightarrow> viewer" where
  "playerViewer_next s =
     (if pdfDoc s = None then s
      else if currentPage s < totalPages s
      then renderPage (currentPage s + 1) (s\<lparr>currentPage := currentPage s + 1\<rparr>)
      else s)"

definition playerViewer_prev :: "viewer \<Rightarrow> viewer" where
  "playerViewer_prev s =
     (if pdfDoc s = None then s
      else if currentPage s > 1
      then renderPage (currentPage s - 1) (s\<lparr>currentPage := currentPage s - 1\<rparr>)
      else s)"

text \<open>\<open>destroyPdfDoc\<close>, and \<open>window.playerViewer.destroy\<close> which also clears the canvas.\<close>

definition destroyPdfDoc :: "viewer \<Rightarrow> viewer" where
  "destroyPdfDoc s =
     (case pdfDoc s of None \<Rightarrow> s | Some d \<Rightarrow> emit [DestroyDoc] s)\<lparr>pdfDoc := None\<rparr>"

definition playerViewer_destroy :: "viewer \<Rightarrow> viewer" where
  "playerViewer_destroy s = emit [ClearRect] (destroyPdfDoc s)"

text \<open>The module's variables as initialised (lines 20-26), in a window of the given size.\<close>

definition initialViewer :: "jsnum \<Rightarrow> jsnum \<Rightarrow> viewer" where
  "initialViewer w h =
     \<lparr>pdfDoc = None, currentPage = 1, totalPages = 0, isRendering = False, currPage = - 1,
      visitedPages = [], lastPdfUrl = None, scormAPI = None,
      innerWidth = w, innerHeight = h, clientWidth = w, clientHeight = h,
      pending = [], trace = []\<rparr>"

text \<open>How often an effect occurs in a trace.\<close>

definition occurrences :: "(effect \<Rightarrow> bool) \<Rightarrow> viewer \<Rightarrow> nat" where
  "occurrences P s = length (filter P (trace s))"

fun isGetPage :: "effect \<Rightarrow> bool" where
  "isGetPage (GetPage p) = True"
| "isGetPage _ = False"

fun isSetCanvasSize :: "effect \<Rightarrow> bool" where
  "isSetCanvasSize (SetCanvasSize p sc) = True"
| "isSetCanvasSize _ = False"

fun isPageRender :: "effect \<Rightarrow> bool" where
  "isPageRender (PageRender p sc) = True"
| "isPageRender _ = False"

text \<open>
  The part of \<open>startViewerWithPdf\<close> that runs once the document has loaded (lines
  213-234), after the first part has reset the session. \<open>suspend\<close> is what
  \<open>getSCORMValue\<close> returns for the suspend data, \<open>lastLoc\<close> what \<open>parseInt\<close> makes
  of the stored location (\<open>None\<close> for NaN).
\<close>

definition onDocumentLoaded :: "pdfdoc \<Rightarrow> string \<Rightarrow> int option \<Rightarrow> viewer \<Rightarrow> viewer" where
  "onDocumentLoaded pdf suspend lastLoc s =
     (let s1 = s\<lparr>pdfDoc := Some pdf, totalPages := int (numPages pdf),
                  visitedPages := decode suspend (numPages pdf)\<rparr>;
          s2 = (case lastLoc of
                  None \<Rightarrow> s1\<lparr>currentPage := 1\<rparr>
                | Some l \<Rightarrow> if l \<ge> 1 \<and> l \<le> totalPages s1 then s1\<lparr>currentPage := l\<rparr>
                            else s1\<lparr>currentPage := 1\<rparr>);
          s3 = renderPage (currentPage s2) s2
      in emit [ConsoleLog (''[player] PDF loaded. pages='' @ showInt (totalPages s3))] s3)"

text \<open>
  A render pass for page \<open>p\<close> has been started from a state with \<open>g\<close> page fetches, \<open>r\<close>
  canvas resizes and \<open>k\<close> rasters in its trace, and is the only one in flight: its page
  fetch is pending, or its raster is, or it has ended.
\<close>

definition inFlight :: "int \<Rightarrow> nat \<Rightarrow> nat \<Rightarrow> nat \<Rightarrow> viewer \<Rightarrow> bool" where
  "inFlight p g r k s =
     (currPage s = p \<and> pdfDoc s \<noteq> None \<and> occurrences isGetPage s = g + 1 \<and>
      ((pending s = [AwaitPage p] \<and> isRendering s
          \<and> occurrences isSetCanvasSize s = r \<and> occurrences isPageRender s = k)
       \<or> (pending s = [AwaitRaster p] \<and> isRendering s
          \<and> occurrences isSetCanvasSize s = r + 1 \<and> occurrences isPageRender s = k + 1)
       \<or> (pending s = [] \<and> \<not> isRendering s
          \<and> occurrences isSetCanvasSize s \<le> r + 1 \<and> occurrences isPageRender s \<le> k + 1)))"

text \<open>
  The module's initial state, in a window of 1224 by 792 pixels, after a three-page
  document has loaded without stored progress and its first page (612 by 792 points)
  has been rendered.
\<close>

definition readyViewer :: viewer where
  "readyViewer =
     settle [PageResolved 1 (Fin 612) (Fin 792), RasterResolved 1]
       (onDocumentLoaded \<lparr>numPages = 3, url = ''data/content.pdf''\<rparr> [] None
          (initialViewer (Fin 1224) (Fin 792)))"

section \<open>server.js: values of a parsed request\<close>

text \<open>
  A value produced by \<open>express.json()\<close>, or \<open>undefined\<close> for a property that is not
  there. An object is the list of its own properties.
\<close>

datatype jsval =
    JUndefined
  | JNull
  | JBool bool
  | JNum jsnum
  | JStr string
  | JArr "jsval list"
  | JObj "(string \<times> jsval) list"

text \<open>Truthiness, which \<open>!x\<close>, \<open>x || y\<close> and \<open>Boolean(x)\<close> all consult.\<close>

fun truthy :: "jsval \<Rightarrow> bool" where
  "truthy JUndefined = False"
| "truthy JNull = False"
| "truthy (JBool b) = b"
| "truthy (JNum n) = truthyNum n"
| "truthy (JStr s) = (s \<noteq> [])"
| "truthy (JArr xs) = True"
| "truthy (JObj kvs) = True"

text \<open>
  A property read \<open>v.k\<close> for the names this file reads (\<open>pdfUrl\<close>, \<open>config\<close>, \<open>title\<close>,
  \<open>sidebarDefaultOpen\<close>, \<open>slideSequenceLocked\<close>), none of which a prototype defines. On
  \<open>undefined\<close> and \<open>null\<close> this is the optional read \<open>v?.k\<close>; the plain read throws
  there, which the caller checks before it reads.
\<close>

fun getProp :: "jsval \<Rightarrow> string \<Rightarrow> jsval" where
  "getProp (JObj kvs) k = (case map_of kvs k of None \<Rightarrow> JUndefined | Some v \<Rightarrow> v)"
| "getProp _ k = JUndefined"

text \<open>A thrown \<open>Error\<close>: its name and its message.\<close>

datatype jserror = JsError string string

text \<open>\<open>err.message || err\<close> as it is concatenated to a string.\<close>

fun errText :: "jserror \<Rightarrow> string" where
  "errText (JsError name message) = (if message \<noteq> [] then message else name)"

text \<open>\<open>Array.prototype.join\<close> on strings, and \<open>String.prototype.includes\<close>.\<close>

fun joinWith :: "string \<Rightarrow> string list \<Rightarrow> string" where
  "joinWith sep [] = []"
| "joinWith sep [x] = x"
| "joinWith sep (x # y # ys) = x @ sep @ joinWith sep (y # ys)"

fun startsWith :: "string \<Rightarrow> string \<Rightarrow> bool" where
  "startsWith s [] = True"
| "startsWith [] (c # t) = False"
| "startsWith (d # s) (c # t) = (d = c \<and> startsWith s t)"

fun includesStr :: "string \<Rightarrow> string \<Rightarrow> bool" where
  "includesStr [] t = (t = [])"
| "includesStr (c # s) t = (startsWith (c # s) t \<or> includesStr s t)"

definition newline :: string where
  "newline = [CHR 0x0A]"

section \<open>server.js: the manifest and the configuration file\<close>

text \<open>
  \<open>generateManifest(pkgId, title, launchFile, resourceFiles)\<close>: the template literal of
  lines 221-245, line by line. The four arguments are inserted as they are.
\<close>

definition generateManifest :: "string \<Rightarrow> string \<Rightarrow> string \<Rightarrow> string list \<Rightarrow> string" where
  \<open>generateManifest pkgId title launchFile resourceFiles =
     (let filesXml = joinWith (newline @ ''      '')
                       (map (\<lambda>f. ''<file href="'' @ f @ ''" />'') resourceFiles)
      in joinWith newline
       [''<?xml version="1.0" encoding="UTF-8"?>'',
        ''<manifest identifier="'' @ pkgId @ ''" version="1"'',
        ''  xmlns="http://www.imsproject.org/xsd/imscp_rootv1p1p2"'',
        ''  xmlns:adlcp="http://www.adlnet.org/xsd/adlcp_rootv1p2"'',
        ''  xmlns:xsi="http://www.w3.org/2001/XMLSchema-instance"'',
        ''  xsi:schemaLocation="http://www.imsproject.org/xsd/imscp_rootv1p1p2'',
        ''  imscp_rootv1p1p2.xsd">'',
        ''  <metadata>'',
        ''    <schema>ADL SCORM</schema>'',
        ''    <schemaversion>1.2</schemaversion>'',
        ''  </metadata>'',
        ''  <organizations default="ORG_1">'',
        ''    <organization identifier="ORG_1">'',
        ''      <title>'' @ title @ ''</title>'',
        ''      <item identifier="ITEM_1" identifierref="RES_1">'',
        ''        <title>'' @ title @ ''</title>'',
        ''      </item>'',
        ''    </organization>'',
        ''  </organizations>'',
        ''  <resources>'',
        ''    <resource identifier="RES_1" type="webcontent" adlcp:scormtype="sco" href="'' @ launchFile @ ''">'',
        ''      '' @ filesXml,
        ''    </resource>'',
        ''  </resources>'',
        ''</manifest>''])\<close>

text \<open>\<open>s.replace(/"/g, '\\"')\<close>: a backslash before every double quote.\<close>

definition escapeQuotes :: "string \<Rightarrow> string" where
  "escapeQuotes s = concat (map (\<lambda>c. if c = CHR 0x22 then [CHR 0x5C, CHR 0x22] else [c]) s)"

definition showBool :: "bool \<Rightarrow> string" where
  "showBool b = (if b then ''true'' else ''false'')"

text \<open>The template literal of lines 249-285 with its four insertions.\<close>

definition configTemplate :: "string \<Rightarrow> string \<Rightarrow> string \<Rightarrow> string \<Rightarrow> string" where
  \<open>configTemplate title pdfFilename sidebar locked =
     joinWith newline
       [''// Config.js'',
        ''var Config = {'',
        ''    // Judul dokumen yang tampil di topbar'',
        ''    title: "'' @ title @ ''",'',
        [],
        ''    // MODE: masukkan link PPTX publik (A).'',
        ''    // Contoh: "https://example.com/training.pptx"'',
        ''    // Jika nanti diintegrasikan ke LMS, LMS tinggal mengganti / generate URL ini.'',
        ''    //pptUrl: "https://netpolitanteam.com/demo/ppt/test.pptx",'',
        ''    pptUrl: null,'',
        [],
        ''    // (opsional) fallback ke file PDF statis di folder `data/`'',
        ''    filename: "'' @ pdfFilename @ ''",'',
        [],
        ''    // UI config (tidak perlu ubah)'',
        ''    fontFamily: "system-ui, -apple-system, BlinkMacSystemFont, 'Segoe UI', sans-serif",'',
        ''    fontSize: "14px",'',
        ''    fontColor: "#222222",'',
        ''    bodyBgColor: "#ffffff",'',
        ''    headerBgColor: "#555555",'',
        ''    headerTextColor: "#ffffff",'',
        ''    footerBgColor: "#555555",'',
        ''    footerTextColor: "#ffffff",'',
        ''    buttonBgColor: "#777777",'',
        ''    buttonPrimaryBgColor: "#007bff",'',
        ''    buttonTextColor: "#ffffff",'',
        ''    progressBarColor: "#00ff00",'',
        [],
        ''    // sidebar default open? (true/false)'',
        ''    sidebarDefaultOpen: '' @ sidebar @ '','',
        [],
        ''    // Lock sequence slides? (true = must go sequentially)'',
        ''    slideSequenceLocked: '' @ locked @ '','',
        [],
        ''    // nav button position: 'left' | 'center' | 'right'' @ [CHR 0x27],
        ''    navPosition: "right"'',
        ''};'']\<close>

text \<open>
  \<open>generateConfigJS(cfg, pdfFilename)\<close>. The title is \<open>cfg.title || ""\<close>, on which
  \<open>replace\<close> is called: a truthy title that is not a string has no such method, and the
  call throws a TypeError (the message is V8's). The two flags are
  \<open>Boolean(cfg.sidebarDefaultOpen)\<close> and \<open>Boolean(cfg.slideSequenceLocked)\<close>.
\<close>

definition generateConfigJS :: "jsval \<Rightarrow> string \<Rightarrow> jserror + string" where
  \<open>generateConfigJS cfg pdfFilename =
     (let t = (if truthy (getProp cfg ''title'') then getProp cfg ''title'' else JStr [])
      in case t of
           JStr s \<Rightarrow>
             Inr (configTemplate (escapeQuotes s) pdfFilename
                    (showBool (truthy (getProp cfg ''sidebarDefaultOpen'')))
                    (showBool (truthy (getProp cfg ''slideSequenceLocked''))))
         | _ \<Rightarrow> Inl (JsError ''TypeError'' ''(cfg.title || "").replace is not a function''))\<close>

text \<open>A call returned a text that contains \<open>t\<close>.\<close>

definition produces :: "jserror + string \<Rightarrow> string \<Rightarrow> bool" where
  "produces r t = (case r of Inl e \<Rightarrow> False | Inr js \<Rightarrow> includesStr js t)"

section \<open>server.js: POST /package\<close>

text \<open>
  The surroundings of one request. \<open>uuid\<close> is what \<open>uuidv4()\<close> returns. \<open>fsError step\<close>
  is the error a file-system step throws, if it does. \<open>copied\<close> maps each relative path
  that the copy loop of step 1 leaves under the package directory to the file's
  content. \<open>fetch\<close> is the global \<open>fetch\<close>: it rejects (a transport error, a bad URL), or
  resolves to a response with a status and a body. \<open>archive.finalize()\<close> is taken to
  succeed.
\<close>

datatype fsStep = MkdirPkg | CopyAssets | MkdirData | PumpPdf | WriteConfig | WriteIndexLms | WriteManifest

datatype fetchOutcome = FetchRejects jserror | FetchResponse nat string

record pkgEnv =
  uuid :: string
  fsError :: "fsStep \<Rightarrow> jserror option"
  copied :: "string \<rightharpoonup> string"
  fetch :: "jsval \<Rightarrow> fetchOutcome"

text \<open>\<open>resp.ok\<close>: the status is in the range 200-299.\<close>

definition ok :: "nat \<Rightarrow> bool" where
  "ok st = (200 \<le> st \<and> st \<le> 299)"

text \<open>
  What the caller receives: the status, the headers the handler sets itself, and
  either a text sent with \<open>res.send\<close> or the archive piped into the response, given by
  the files of the package directory.
\<close>

datatype body = Text string | Zip "string \<rightharpoonup> string"

record response =
  status :: nat
  headers :: "(string \<times> string) list"
  body :: body

text \<open>An awaited step that may throw: the rest runs only if it does not.\<close>

fun attempt :: "jserror option \<Rightarrow> (jserror + 'a) \<Rightarrow> jserror + 'a" where
  "attempt None rest = rest"
| "attempt (Some e) rest = Inl e"

definition pdfFilename :: string where
  "pdfFilename = ''content.pdf''"

text \<open>The fallback launch page of step 4.\<close>

definition indexLmsFallback :: string where
  \<open>indexLmsFallback =
     joinWith newline
       [''<!doctype html><html><body style="margin:0">'',
        ''<iframe src="player.html?pdf=data/'' @ pdfFilename @ ''" style="width:100%;height:100vh;border:0;"></iframe>'',
        ''</body></html>'']\<close>

text \<open>The resource list of step 5, from the files present in the package directory.\<close>

definition resourceList :: "(string \<rightharpoonup> string) \<Rightarrow> string list" where
  "resourceList files =
     [''player.html'', ''index_lms.html'', ''Config.js'', ''data/'' @ pdfFilename]
     @ (if files ''css/styles.css'' \<noteq> None then [''css/styles.css''] else [])
     @ (if files ''js/pdf.min.js'' \<noteq> None then [''js/pdf.min.js''] else [])
     @ (if files ''js/pdf.worker.min.js'' \<noteq> None then [''js/pdf.worker.min.js''] else [])
     @ (if files ''js/player-viewer.js'' \<noteq> None then [''js/player-viewer.js''] else [])"

text \<open>
  \<open>config?.title || "SCORM Package"\<close> as it is inserted into the manifest. By then
  \<open>generateConfigJS\<close> has returned, so the title is a string or falsy: a truthy title
  of another type has thrown there.
\<close>

definition manifestTitle :: "jsval \<Rightarrow> string" where
  "manifestTitle config =
     (case getProp config ''title'' of
        JStr s \<Rightarrow> if s \<noteq> [] then s else ''SCORM Package''
      | _ \<Rightarrow> ''SCORM Package'')"

text \<open>
  The body of the \<open>try\<close> block: \<open>Inl\<close> is a thrown error, \<open>Inr\<close> the response of a
  normal completion. Destructuring \<open>req.body\<close> throws when it is \<open>undefined\<close> or \<open>null\<close>.
\<close>

definition packageSteps :: "pkgEnv \<Rightarrow> jsval \<Rightarrow> jsval \<Rightarrow> jserror + response" where
  \<open>packageSteps env pdfUrl config =
     (let pkgId = ''pkg_'' @ uuid env in
      attempt (fsError env MkdirPkg)
     (attempt (fsError env CopyAssets)
     (attempt (fsError env MkdirData)
     (case fetch env pdfUrl of
        FetchRejects e \<Rightarrow> Inl e
      | FetchResponse st pdf \<Rightarrow>
          if \<not> ok st then Inl (JsError ''Error'' (''Failed fetching PDF: '' @ digits st))
          else
            attempt (fsError env PumpPdf)
           (case generateConfigJS (if truthy config then config else JObj []) pdfFilename of
              Inl e \<Rightarrow> Inl e
            | Inr configJS \<Rightarrow>
                attempt (fsError env WriteConfig)
               (let files1 = (copied env)(''data/'' @ pdfFilename \<mapsto> pdf, ''Config.js'' \<mapsto> configJS) in
                attempt (if files1 ''index_lms.html'' = None then fsError env WriteIndexLms else None)
               (let files2 = (if files1 ''index_lms.html'' = None
                              then files1(''index_lms.html'' \<mapsto> indexLmsFallback) else files1);
                    manifestXml = generateManifest pkgId (manifestTitle config) ''index_lms.html''
                                    (resourceList files2) in
                attempt (fsError env WriteManifest)
               (Inr \<lparr>status = 200,
                     headers = [(''Content-Type'', ''application/zip''),
                                (''Content-Disposition'', ''attachment; filename="scorm_package.zip"'')],
                     body = Zip (files2(''imsmanifest.xml'' \<mapsto> manifestXml))\<rparr>))))))))\<close>

definition packageTry :: "pkgEnv \<Rightarrow> jsval \<Rightarrow> jserror + response" where
  \<open>packageTry env reqBody =
     (if reqBody = JUndefined \<or> reqBody = JNull
      then Inl (JsError ''TypeError'' ''Cannot destructure property 'pdfUrl' of 'req.body' as it is undefined.'')
      else let pdfUrl = getProp reqBody ''pdfUrl''; config = getProp reqBody ''config''
           in if \<not> truthy pdfUrl
              then Inr \<lparr>status = 400, headers = [], body = Text ''Missing pdfUrl''\<rparr>
              else packageSteps env pdfUrl config)\<close>

text \<open>The handler: the \<open>catch\<close> block answers a thrown error with status 500.\<close>

definition postPackage :: "pkgEnv \<Rightarrow> jsval \<Rightarrow> response" where
  "postPackage env reqBody =
     (case packageTry env reqBody of
        Inl err \<Rightarrow> \<lparr>status = 500, headers = [],
                    body = Text (''Package generation error: '' @ errText err)\<rparr>
      | Inr r \<Rightarrow> r)"

text \<open>The fetch did not deliver the PDF: it rejected, or the status is not a success.\<close>

fun fetchFailed :: "fetchOutcome \<Rightarrow> bool" where
  "fetchFailed (FetchRejects e) = True"
| "fetchFailed (FetchResponse st pdf) = (\<not> ok st)"

fun isArchive :: "body \<Rightarrow> bool" where
  "isArchive (Zip files) = True"
| "isArchive (Text t) = False"

text \<open>
  A request for a package, on a server whose file-system steps succeed and whose \<open>fetch\<close>
  of the PDF is answered with status 404.
\<close>

definition notFoundEnv :: pkgEnv where
  "notFoundEnv =
     \<lparr>uuid = ''bcb70ea7-902f-4dcb-b06c-6f272f637248'', fsError = (\<lambda>step. None),
      copied = Map.empty, fetch = (\<lambda>u. FetchResponse 404 ''Not Found'')\<rparr>"

definition packageRequest :: jsval where
  "packageRequest =
     JObj [(''pdfUrl'', JStr ''http://localhost:3000/files/1/a.pdf''),
           (''config'', JObj [(''title'', JStr ''Intro''), (''sidebarDefaultOpen'', JBool False)])]"

section \<open>Auxiliary facts\<close>

subsection \<open>Strings\<close>

lemma startsWith_iff: "startsWith s t \<longleftrightarrow> (\<exists>post. s = t @ post)"
  by (induction s t rule: startsWith.induct) auto

lemma includesStr_iff: "includesStr s t \<longleftrightarrow> (\<exists>pre post. s = pre @ t @ post)"
proof (induction s)
  case Nil
  then show ?case by auto
next
  case (Cons c s)
  show ?case
  proof
    assume "includesStr (c # s) t"
    then consider "startsWith (c # s) t" | "includesStr s t" by auto
    then show "\<exists>pre post. c # s = pre @ t @ post"
    proof cases
      case 1
      then obtain post where "c # s = [] @ t @ post" by (auto simp: startsWith_iff)
      then show ?thesis by blast
    next
      case 2
      then obtain pre post where "s = pre @ t @ post" using Cons.IH by blast
      then have "c # s = (c # pre) @ t @ post" by simp
      then show ?thesis by blast
    qed
  next
    assume "\<exists>pre post. c # s = pre @ t @ post"
    then obtain pre post where eq: "c # s = pre @ t @ post" by blast
    show "includesStr (c # s) t"
    proof (cases pre)
      case Nil
      with eq have "startsWith (c # s) t" by (auto simp: startsWith_iff)
      then show ?thesis by simp
    next
      case (Cons d pre')
      with eq have "s = pre' @ t @ post" by simp
      then have "includesStr s t" using Cons.IH by blast
      then show ?thesis by simp
    qed
  qed
qed

lemma includesStr_appendI: "includesStr (pre @ t @ post) t"
  by (auto simp: includesStr_iff)

lemma includesStr_trans:
  assumes "includesStr s l" and "includesStr l t"
  shows "includesStr s t"
proof -
  from assms obtain a b c d where "s = a @ l @ b" "l = c @ t @ d"
    by (auto simp: includesStr_iff)
  then have "s = (a @ c) @ t @ (d @ b)" by simp
  then show ?thesis unfolding includesStr_iff by blast
qed

lemma includesStr_joinWith: "l \<in> set ls \<Longrightarrow> includesStr (joinWith sep ls) l"
proof (induction sep ls rule: joinWith.induct)
  case (1 sep)
  then show ?case by simp
next
  case (2 sep x)
  then have "joinWith sep [x] = [] @ l @ []" by simp
  then show ?case unfolding includesStr_iff by blast
next
  case (3 sep x y ys)
  show ?case
  proof (cases "l = x")
    case True
    then have "joinWith sep (x # y # ys) = [] @ l @ (sep @ joinWith sep (y # ys))" by simp
    then show ?thesis unfolding includesStr_iff by blast
  next
    case False
    with 3 have "includesStr (joinWith sep (y # ys)) l" by simp
    then obtain pre post where "joinWith sep (y # ys) = pre @ l @ post"
      by (auto simp: includesStr_iff)
    then have "joinWith sep (x # y # ys) = (x @ sep @ pre) @ l @ post" by simp
    then show ?thesis unfolding includesStr_iff by blast
  qed
qed

text \<open>A text without a line break occurs in a sequence of lines iff it occurs in one of them.\<close>

lemma startsWith_line:
  "CHR 0x0A \<notin> set t \<Longrightarrow> startsWith (a @ CHR 0x0A # b) t = startsWith a t"
proof (induction a arbitrary: t)
  case Nil
  then show ?case by (cases t) auto
next
  case (Cons c a)
  then show ?case by (cases t) auto
qed

lemma includesStr_lines:
  "CHR 0x0A \<notin> set t \<Longrightarrow> t \<noteq> [] \<Longrightarrow>
   includesStr (a @ CHR 0x0A # b) t = (includesStr a t \<or> includesStr b t)"
proof (induction a)
  case Nil
  then show ?case by (cases t) auto
next
  case (Cons c a)
  have "startsWith ((c # a) @ CHR 0x0A # b) t = startsWith (c # a) t"
    using Cons.prems(1) by (rule startsWith_line)
  with Cons show ?case by auto
qed

lemma includesStr_joinWith_newline:
  "CHR 0x0A \<notin> set t \<Longrightarrow> t \<noteq> [] \<Longrightarrow>
   includesStr (joinWith newline ls) t = list_ex (\<lambda>l. includesStr l t) ls"
proof (induction newline ls rule: joinWith.induct)
  case 1
  then show ?case by simp
next
  case (2 x)
  then show ?case by simp
next
  case (3 x y ys)
  then show ?case by (simp add: newline_def includesStr_lines)
qed

subsection \<open>Rounding to a double\<close>

lemma pow2_powr: "pow2 e = 2 powr (real_of_int e)"
proof (cases "0 \<le> e")
  case True
  have a: "pow2 e = 2 ^ nat e" using True by (simp add: pow2_def)
  have b: "real_of_int e = real (nat e)" using True by simp
  have c: "2 powr (real (nat e)) = (2::real) ^ nat e" by (rule powr_realpow) simp
  show ?thesis unfolding a b c ..
next
  case False
  have a: "pow2 e = 1 / 2 ^ nat (- e)" using False by (simp add: pow2_def)
  have b: "real_of_int e = - real (nat (- e))" using False by simp
  have c: "2 powr (real (nat (- e))) = (2::real) ^ nat (- e)" by (rule powr_realpow) simp
  have d: "2 powr (- real (nat (- e))) = 1 / 2 powr (real (nat (- e)))"
    by (simp add: powr_minus divide_inverse)
  show ?thesis unfolding a b d c ..
qed

lemma pow2_pos [simp]: "0 < pow2 e"
  by (simp add: pow2_powr)

lemma pow2_nonzero [simp]: "pow2 e \<noteq> 0"
  using pow2_pos [of e] by linarith

lemma pow2_not_le_zero [simp]: "\<not> pow2 e \<le> 0"
  using pow2_pos [of e] by linarith

lemma pow2_add: "pow2 (a + b) = pow2 a * pow2 b"
  by (simp add: pow2_powr powr_add)

lemma pow2_diff: "pow2 (a - b) = pow2 a / pow2 b"
  by (simp add: pow2_powr powr_diff)

lemma pow2_le_iff [simp]: "pow2 a \<le> pow2 b \<longleftrightarrow> a \<le> b"
  by (simp add: pow2_powr)

lemma pow2_less_iff [simp]: "pow2 a < pow2 b \<longleftrightarrow> a < b"
  by (simp add: pow2_powr)

lemma pow2_of_int: "0 \<le> e \<Longrightarrow> pow2 e = of_int (2 ^ nat e)"
  by (simp add: pow2_def)

lemma search_ge: "e \<le> search k e a"
proof (induction k arbitrary: e)
  case 0
  then show ?case by simp
next
  case (Suc k)
  have "e \<le> (if pow2 (e + 2 ^ k) \<le> a then e + 2 ^ k else e)" by simp
  also have "\<dots> \<le> search (Suc k) e a" using Suc.IH by simp
  finally show ?case .
qed

lemma search_lower: "search k e a = e \<or> pow2 (search k e a) \<le> a"
proof (induction k arbitrary: e)
  case 0
  then show ?case by simp
next
  case (Suc k)
  show ?case
  proof (cases "pow2 (e + 2 ^ k) \<le> a")
    case True
    with Suc.IH [of "e + 2 ^ k"] show ?thesis by auto
  next
    case False
    with Suc.IH [of e] show ?thesis by auto
  qed
qed

lemma search_upper: "a < pow2 (e + 2 ^ k) \<Longrightarrow> a < pow2 (search k e a + 1)"
proof (induction k arbitrary: e)
  case 0
  then show ?case by simp
next
  case (Suc k)
  show ?case
  proof (cases "pow2 (e + 2 ^ k) \<le> a")
    case True
    have "a < pow2 (e + 2 ^ k + 2 ^ k)" using Suc.prems by (simp add: ac_simps)
    from Suc.IH [OF this] True show ?thesis by simp
  next
    case False
    then have "a < pow2 (e + 2 ^ k)" by simp
    from Suc.IH [OF this] False show ?thesis by simp
  qed
qed

lemma search_full: "pow2 (e + 2 ^ k - 1) \<le> a \<Longrightarrow> search k e a = e + 2 ^ k - 1"
proof (induction k arbitrary: e)
  case 0
  then show ?case by simp
next
  case (Suc k)
  have "(1::int) \<le> 2 ^ k" by simp
  then have "pow2 (e + 2 ^ k) \<le> pow2 (e + 2 ^ Suc k - 1)" by simp
  with Suc.prems have t: "pow2 (e + 2 ^ k) \<le> a" by linarith
  have "pow2 (e + 2 ^ k + 2 ^ k - 1) \<le> a" using Suc.prems by (simp add: ac_simps)
  from Suc.IH [OF this] t show ?case by simp
qed

lemma binade_ge: "- 1022 \<le> binade a"
  unfolding binade_def by (rule search_ge)

lemma binade_lower: "binade a = - 1022 \<or> pow2 (binade a) \<le> a"
  unfolding binade_def by (rule search_lower)

lemma binade_upper: "a < pow2 1026 \<Longrightarrow> a < pow2 (binade a + 1)"
  unfolding binade_def by (rule search_upper) simp

lemma binade_full: "pow2 1025 \<le> a \<Longrightarrow> binade a = 1025"
  unfolding binade_def using search_full [of "- 1022" 11 a] by simp

lemma roundHalfEven_le: "real_of_int (roundHalfEven y) \<le> y + 1 / 2"
  unfolding roundHalfEven_def Let_def by (auto; linarith)

lemma roundHalfEven_ge: "y - 1 / 2 \<le> real_of_int (roundHalfEven y)"
  unfolding roundHalfEven_def Let_def by (auto; linarith)

lemma roundHalfEven_of_int [simp]: "roundHalfEven (of_int m) = m"
  by (simp add: roundHalfEven_def)

lemma roundHalfEven_ge_even:
  assumes "real_of_int m - 1 / 2 \<le> y" and "even m"
  shows "m \<le> roundHalfEven y"
proof -
  have f: "m - 1 \<le> \<lfloor>y\<rfloor>" using assms(1) by linarith
  show ?thesis
  proof (cases "m \<le> \<lfloor>y\<rfloor>")
    case True
    then show ?thesis by (auto simp: roundHalfEven_def Let_def)
  next
    case False
    with f have e: "\<lfloor>y\<rfloor> = m - 1" by simp
    then have "odd \<lfloor>y\<rfloor>" using assms(2) by simp
    moreover have "\<not> y - of_int \<lfloor>y\<rfloor> < 1 / 2" using assms(1) e by simp
    ultimately show ?thesis using e by (simp add: roundHalfEven_def Let_def)
  qed
qed

lemma pow2_numeral_54: "pow2 54 = 2 ^ 54"
  by (simp add: pow2_def)

lemma pow2_1024: "pow2 1024 = overflowThreshold + pow2 970"
proof -
  have "pow2 1024 = pow2 (54 + 970)" by simp
  also have "\<dots> = 2 ^ 54 * pow2 970" by (simp only: pow2_add pow2_numeral_54)
  finally show ?thesis by (simp add: overflowThreshold_def algebra_simps)
qed

lemma pow2_double: "pow2 (e + 1) = 2 * pow2 e"
proof -
  have "pow2 1 = 2" by (simp add: pow2_def)
  then show ?thesis by (simp add: pow2_add)
qed

lemma pow2_half: "pow2 (e - 1) = pow2 e / 2"
  using pow2_double [of "e - 1"] by simp

lemma overflowThreshold_ge: "pow2 1023 \<le> overflowThreshold"
proof -
  have "pow2 1023 = pow2 (53 + 970)" by simp
  also have "\<dots> = pow2 53 * pow2 970" by (simp only: pow2_add)
  also have "\<dots> = 2 ^ 53 * pow2 970" by (simp add: pow2_def)
  also have "\<dots> \<le> (2 ^ 54 - 1) * pow2 970" by (simp add: mult_right_mono)
  finally show ?thesis by (simp add: overflowThreshold_def)
qed

lemma toDouble_in_range:
  assumes lo: "pow2 (- 1074) \<le> x" and hi: "x < overflowThreshold"
  shows "toDouble x = Fin (of_int (roundHalfEven (x / pow2 (binade x - 52))) * pow2 (binade x - 52))"
    and "0 < real_of_int (roundHalfEven (x / pow2 (binade x - 52))) * pow2 (binade x - 52)"
    and "\<bar>real_of_int (roundHalfEven (x / pow2 (binade x - 52))) * pow2 (binade x - 52) - x\<bar>
           \<le> pow2 (binade x - 53)"
proof -
  let ?q = "pow2 (binade x - 52)"
  let ?n = "roundHalfEven (x / ?q)"
  have xpos: "0 < x" using lo pow2_pos [of "- 1074"] by linarith
  have qpos: "0 < ?q" by simp
  have qle: "?q \<le> x"
  proof -
    from binade_lower [of x] show ?thesis
    proof
      assume "binade x = - 1022"
      then show ?thesis using lo by simp
    next
      assume "pow2 (binade x) \<le> x"
      moreover have "?q \<le> pow2 (binade x)" by simp
      ultimately show ?thesis by linarith
    qed
  qed
  have b1023: "binade x \<le> 1023"
  proof -
    from binade_lower [of x] show ?thesis
    proof
      assume "binade x = - 1022"
      then show ?thesis by simp
    next
      assume "pow2 (binade x) \<le> x"
      then have "pow2 (binade x) < pow2 1024" using hi pow2_1024 pow2_pos [of 970] by linarith
      then show ?thesis by simp
    qed
  qed
  have half: "?q / 2 = pow2 (binade x - 53)"
    using pow2_half [of "binade x - 52"] by simp
  have y1: "1 \<le> x / ?q" using qle qpos by simp
  have up: "real_of_int ?n * ?q \<le> x + ?q / 2"
  proof -
    have "real_of_int ?n * ?q \<le> (x / ?q + 1 / 2) * ?q"
      using roundHalfEven_le [of "x / ?q"] qpos by (simp add: mult_right_mono)
    also have "\<dots> = x + ?q / 2" using qpos by (simp add: field_simps)
    finally show ?thesis .
  qed
  have dn: "x - ?q / 2 \<le> real_of_int ?n * ?q"
  proof -
    have "(x / ?q - 1 / 2) * ?q \<le> real_of_int ?n * ?q"
      using roundHalfEven_ge [of "x / ?q"] qpos by (simp add: mult_right_mono)
    moreover have "(x / ?q - 1 / 2) * ?q = x - ?q / 2" using qpos by (simp add: field_simps)
    ultimately show ?thesis by simp
  qed
  have npos: "0 < ?n"
  proof -
    have "1 / 2 \<le> real_of_int ?n" using roundHalfEven_ge [of "x / ?q"] y1 by linarith
    then show ?thesis by linarith
  qed
  have q970: "?q / 2 \<le> pow2 970"
  proof -
    have "pow2 (binade x - 53) \<le> pow2 970" using b1023 by simp
    then show ?thesis by (simp only: half)
  qed
  have fin: "real_of_int ?n * ?q < pow2 1024"
    using up q970 hi pow2_1024 by linarith
  show pos: "0 < real_of_int ?n * ?q" using npos qpos by simp
  show "toDouble x = Fin (real_of_int ?n * ?q)"
    using xpos fin npos by (simp add: toDouble_def Let_def)
  show "\<bar>real_of_int ?n * ?q - x\<bar> \<le> pow2 (binade x - 53)"
    using up dn half by linarith
qed

lemma toDouble_overflow:
  assumes "overflowThreshold \<le> x"
  shows "toDouble x = PInf"
proof -
  let ?q = "pow2 (binade x - 52)"
  let ?n = "roundHalfEven (x / ?q)"
  have xpos: "0 < x" using assms overflowThreshold_ge pow2_pos [of 1023] by linarith
  have qpos: "0 < ?q" by simp
  have b: "1023 \<le> binade x \<and> pow2 (binade x) \<le> x"
  proof (cases "pow2 1025 \<le> x")
    case True
    then show ?thesis by (simp add: binade_full)
  next
    case False
    then have "x < pow2 1026" using pow2_less_iff [of 1025 1026] by linarith
    then have "x < pow2 (binade x + 1)" by (rule binade_upper)
    then have "pow2 1023 < pow2 (binade x + 1)" using assms overflowThreshold_ge by linarith
    then have ge: "1023 \<le> binade x" by simp
    with binade_lower [of x] show ?thesis by auto
  qed
  have big: "pow2 1024 \<le> real_of_int ?n * ?q"
  proof (cases "binade x = 1023")
    case True
    then have q: "?q = pow2 971" by simp
    have t: "overflowThreshold = (2 ^ 53 - 1 / 2) * pow2 971"
      using pow2_double [of 970] by (simp add: overflowThreshold_def)
    have "x / pow2 971 \<ge> 2 ^ 53 - 1 / 2"
      using assms t by (simp add: pos_le_divide_eq)
    then have "real_of_int (2 ^ 53) - 1 / 2 \<le> x / ?q" by (simp add: q)
    then have "2 ^ 53 \<le> ?n" by (rule roundHalfEven_ge_even) simp
    then have "real_of_int (2 ^ 53) \<le> real_of_int ?n" by (simp only: of_int_le_iff)
    then have "2 ^ 53 * pow2 971 \<le> real_of_int ?n * pow2 971"
      by (simp add: mult_right_mono)
    moreover have "pow2 1024 = 2 ^ 53 * pow2 971"
    proof -
      have "pow2 1024 = pow2 (53 + 971)" by simp
      also have "\<dots> = pow2 53 * pow2 971" by (simp only: pow2_add)
      finally show ?thesis by (simp add: pow2_def)
    qed
    ultimately show ?thesis by (simp add: q)
  next
    case False
    with b have ge: "1024 \<le> binade x" by simp
    have "pow2 52 * ?q = pow2 (binade x)"
      using pow2_add [of 52 "binade x - 52"] by simp
    then have "pow2 52 * ?q \<le> x" using b by simp
    then have "pow2 52 \<le> x / ?q" using qpos by (simp add: pos_le_divide_eq)
    moreover have p52: "pow2 52 = real_of_int (2 ^ 52)" by (simp add: pow2_def)
    ultimately have "real_of_int (2 ^ 52) - 1 / 2 \<le> x / ?q" by linarith
    then have "2 ^ 52 \<le> ?n" by (rule roundHalfEven_ge_even) simp
    then have "real_of_int (2 ^ 52) \<le> real_of_int ?n" by (simp only: of_int_le_iff)
    then have "pow2 52 * ?q \<le> real_of_int ?n * ?q"
      using qpos by (simp only: p52 mult_right_mono less_imp_le)
    moreover have "pow2 52 * ?q = pow2 (binade x)"
      using pow2_add [of 52 "binade x - 52"] by simp
    moreover have "pow2 1024 \<le> pow2 (binade x)" using ge by simp
    ultimately show ?thesis by linarith
  qed
  show ?thesis using xpos big by (simp add: toDouble_def Let_def signedInf_def)
qed

lemma overflowThreshold_gt: "pow2 1023 < overflowThreshold"
proof -
  have "pow2 1023 = pow2 (53 + 970)" by simp
  also have "\<dots> = pow2 53 * pow2 970" by (simp only: pow2_add)
  also have "\<dots> = 2 ^ 53 * pow2 970" by (simp add: pow2_def)
  also have "\<dots> < (2 ^ 54 - 1) * pow2 970" by (simp add: mult_strict_right_mono)
  finally show ?thesis by (simp add: overflowThreshold_def)
qed

lemma pow2_below_threshold: "e \<le> 1023 \<Longrightarrow> pow2 e < overflowThreshold"
proof -
  assume "e \<le> 1023"
  then have "pow2 e \<le> pow2 1023" by simp
  then show ?thesis using overflowThreshold_gt by linarith
qed

lemma overflowThreshold_lt: "overflowThreshold < pow2 1024"
  using pow2_1024 pow2_pos [of 970] by linarith

lemma binade_pow2:
  assumes "e \<le> 1023"
  shows "binade (pow2 e) = max e (- 1022)"
proof -
  have "pow2 e < pow2 1026" using assms by simp
  then have "pow2 e < pow2 (binade (pow2 e) + 1)" by (rule binade_upper)
  then have up: "e \<le> binade (pow2 e)" by simp
  from binade_lower [of "pow2 e"] binade_ge [of "pow2 e"] up show ?thesis by auto
qed

lemma toDouble_pow2:
  assumes "- 1074 \<le> e" and "e \<le> 1023"
  shows "toDouble (pow2 e) = Fin (pow2 e)"
proof -
  let ?b = "max e (- 1022)"
  have lo: "pow2 (- 1074) \<le> pow2 e" using assms by simp
  have "pow2 e \<le> pow2 1023" using assms by simp
  then have hi: "pow2 e < overflowThreshold" using overflowThreshold_gt by linarith
  have b: "binade (pow2 e) = ?b" using assms(2) by (rule binade_pow2)
  have k: "0 \<le> e - ?b + 52" using assms by simp
  have "pow2 e / pow2 (?b - 52) = pow2 (e - (?b - 52))" by (simp only: pow2_diff)
  also have "e - (?b - 52) = e - ?b + 52" by simp
  finally have "pow2 e / pow2 (?b - 52) = real_of_int (2 ^ nat (e - ?b + 52))"
    using k by (simp only: pow2_of_int)
  then have "roundHalfEven (pow2 e / pow2 (?b - 52)) = 2 ^ nat (e - ?b + 52)"
    by (simp only: roundHalfEven_of_int)
  then have "real_of_int (roundHalfEven (pow2 e / pow2 (?b - 52))) * pow2 (?b - 52)
             = pow2 (e - ?b + 52) * pow2 (?b - 52)"
    using k by (simp only: pow2_of_int)
  also have "\<dots> = pow2 e" using pow2_add [of "e - ?b + 52" "?b - 52"] by simp
  finally show ?thesis using toDouble_in_range(1) [OF lo hi] by (simp only: b)
qed

lemma toDouble_underflow:
  assumes "0 \<le> x" and "x \<le> pow2 (- 1075)"
  shows "toDouble x = Fin 0"
proof -
  have b: "binade x = - 1022"
  proof -
    from binade_lower [of x] show ?thesis
    proof
      assume "pow2 (binade x) \<le> x"
      then have "pow2 (binade x) \<le> pow2 (- 1075)" using assms(2) by linarith
      then have "binade x \<le> - 1075" by simp
      with binade_ge [of x] show ?thesis by simp
    qed
  qed
  have h: "pow2 (- 1075) = pow2 (- 1074) / 2" using pow2_half [of "- 1074"] by simp
  have y: "0 \<le> x / pow2 (- 1074)" "x / pow2 (- 1074) \<le> 1 / 2"
    using assms h by (simp_all add: pos_divide_le_eq)
  then have f: "\<lfloor>x / pow2 (- 1074)\<rfloor> = 0" by linarith
  have "roundHalfEven (x / pow2 (- 1074)) = 0"
    using y by (simp add: roundHalfEven_def Let_def f)
  then show ?thesis using assms(1) by (simp add: toDouble_def Let_def b signedZero_def)
qed

lemma jsDiv_pos: "0 < a \<Longrightarrow> 0 < b \<Longrightarrow> jsDiv (Fin a) (Fin b) = toDouble (a / b)"
  by (simp add: jsDiv_def)

subsection \<open>The viewer's state\<close>

lemma occurrences_simps [simp]:
  "occurrences P (emit es s) = occurrences P s + length (filter P es)"
  "occurrences P (s\<lparr>pending := ps\<rparr>) = occurrences P s"
  "occurrences P (s\<lparr>isRendering := b\<rparr>) = occurrences P s"
  "occurrences P (s\<lparr>visitedPages := v\<rparr>) = occurrences P s"
  "occurrences P (s\<lparr>currPage := c\<rparr>) = occurrences P s"
  "occurrences P (s\<lparr>currentPage := c\<rparr>) = occurrences P s"
  by (simp_all add: occurrences_def emit_def)

lemma emit_simps [simp]:
  "currPage (emit es s) = currPage s"
  "pdfDoc (emit es s) = pdfDoc s"
  "pending (emit es s) = pending s"
  "isRendering (emit es s) = isRendering s"
  "visitedPages (emit es s) = visitedPages s"
  "currentPage (emit es s) = currentPage s"
  "totalPages (emit es s) = totalPages s"
  by (simp_all add: emit_def)

lemma renderPage_keeps [simp]:
  "currentPage (renderPage p s) = currentPage s"
  "totalPages (renderPage p s) = totalPages s"
  "pdfDoc (renderPage p s) = pdfDoc s"
  "visitedPages (renderPage p s) = visitedPages s"
  by (simp_all add: renderPage_def)

lemma renderPage_suppressed:
  "pdfDoc s = None \<or> isRendering s \<or> currPage s = p \<Longrightarrow> renderPage p s = s"
  by (auto simp: renderPage_def)

lemma scorm_simps [simp]:
  "currPage (setSCORMValue a b v s) = currPage s"
  "pdfDoc (setSCORMValue a b v s) = pdfDoc s"
  "pending (setSCORMValue a b v s) = pending s"
  "isRendering (setSCORMValue a b v s) = isRendering s"
  "visitedPages (setSCORMValue a b v s) = visitedPages s"
  "occurrences isGetPage (setSCORMValue a b v s) = occurrences isGetPage s"
  "occurrences isSetCanvasSize (setSCORMValue a b v s) = occurrences isSetCanvasSize s"
  "occurrences isPageRender (setSCORMValue a b v s) = occurrences isPageRender s"
  "currPage (commitSCORM s) = currPage s"
  "pdfDoc (commitSCORM s) = pdfDoc s"
  "pending (commitSCORM s) = pending s"
  "isRendering (commitSCORM s) = isRendering s"
  "visitedPages (commitSCORM s) = visitedPages s"
  "occurrences isGetPage (commitSCORM s) = occurrences isGetPage s"
  "occurrences isSetCanvasSize (commitSCORM s) = occurrences isSetCanvasSize s"
  "occurrences isPageRender (commitSCORM s) = occurrences isPageRender s"
  by (simp_all add: setSCORMValue_def commitSCORM_def split: option.splits scormVersion.splits)

text \<open>Settling promises keeps a render pass in flight or ends it; it never starts one.\<close>

lemma step_inFlight: "inFlight p g r k s \<Longrightarrow> inFlight p g r k (step e s)"
  by (cases e)
     (auto simp: inFlight_def onPage_def onPageError_def onRendered_def onRenderError_def Let_def)

lemma settle_inFlight: "inFlight p g r k s \<Longrightarrow> inFlight p g r k (settle evs s)"
  by (induction evs arbitrary: s) (simp_all add: step_inFlight)

lemma renderPage_inFlight:
  assumes "pdfDoc s \<noteq> None" and "\<not> isRendering s" and "currPage s \<noteq> p" and "pending s = []"
  shows "inFlight p (occurrences isGetPage s) (occurrences isSetCanvasSize s)
           (occurrences isPageRender s) (renderPage p s)"
  using assms by (simp add: renderPage_def inFlight_def)

lemma mathMin_Fin: "mathMin (Fin a) (Fin b) = Fin (min a b)"
  by (auto simp: mathMin_def min_def)

lemma readyViewer_fields:
  "pdfDoc readyViewer = Some \<lparr>numPages = 3, url = ''data/content.pdf''\<rparr>"
  "currentPage readyViewer = 1"
  "totalPages readyViewer = 3"
  "isRendering readyViewer = False"
  "currPage readyViewer = 1"
  "pending readyViewer = []"
  "visitedPages readyViewer = [Some True, Some False, Some False]"
  by (simp_all add: readyViewer_def onDocumentLoaded_def initialViewer_def renderPage_def
        decode_def onPage_def onRendered_def truthyAt_def arraySet_def Let_def emit_def
        setSCORMValue_def commitSCORM_def numeral_eq_Suc)

subsection \<open>The configuration file and the package handler\<close>

lemma configTemplate_flags:
  "includesStr (configTemplate title pdf sidebar locked) (''sidebarDefaultOpen: '' @ sidebar)"
  "includesStr (configTemplate title pdf sidebar locked) (''slideSequenceLocked: '' @ locked)"
proof -
  have a: "includesStr (''    sidebarDefaultOpen: '' @ sidebar @ '','') (''sidebarDefaultOpen: '' @ sidebar)"
    using includesStr_appendI [of "''    ''" "''sidebarDefaultOpen: '' @ sidebar" "'',''"] by simp
  have b: "includesStr (''    slideSequenceLocked: '' @ locked @ '','') (''slideSequenceLocked: '' @ locked)"
    using includesStr_appendI [of "''    ''" "''slideSequenceLocked: '' @ locked" "'',''"] by simp
  have "includesStr (configTemplate title pdf sidebar locked) (''    sidebarDefaultOpen: '' @ sidebar @ '','')"
    unfolding configTemplate_def by (rule includesStr_joinWith) simp
  with a show "includesStr (configTemplate title pdf sidebar locked) (''sidebarDefaultOpen: '' @ sidebar)"
    by (rule includesStr_trans [rotated])
  have "includesStr (configTemplate title pdf sidebar locked) (''    slideSequenceLocked: '' @ locked @ '','')"
    unfolding configTemplate_def by (rule includesStr_joinWith) simp
  with b show "includesStr (configTemplate title pdf sidebar locked) (''slideSequenceLocked: '' @ locked)"
    by (rule includesStr_trans [rotated])
qed

lemma generateConfigJS_returns:
  assumes "\<not> truthy (getProp cfg ''title'') \<or> (\<exists>t. getProp cfg ''title'' = JStr t)"
  shows "\<exists>t. generateConfigJS cfg pdf =
           Inr (configTemplate t pdf (showBool (truthy (getProp cfg ''sidebarDefaultOpen'')))
                  (showBool (truthy (getProp cfg ''slideSequenceLocked''))))"
  using assms by (auto simp: generateConfigJS_def Let_def)

text \<open>
  The manifest's title is read only after \<open>generateConfigJS\<close> has returned, and then it
  is a string or falsy.
\<close>

lemma generateConfigJS_title:
  "generateConfigJS cfg pdf = Inr js \<Longrightarrow>
   \<not> truthy (getProp cfg ''title'') \<or> (\<exists>t. getProp cfg ''title'' = JStr t)"
  by (auto simp: generateConfigJS_def Let_def split: jsval.splits if_splits)

lemma attempt_Inr: "attempt x rest = Inr r \<Longrightarrow> rest = Inr r"
  by (cases x) simp_all

lemma packageSteps_fetch_failure:
  assumes "fetchFailed (fetch env pdfUrl)"
  shows "\<exists>e. packageSteps env pdfUrl config = Inl e"
proof (cases "packageSteps env pdfUrl config")
  case (Inl e)
  then show ?thesis by blast
next
  case (Inr r)
  then have "(case fetch env pdfUrl of
        FetchRejects e \<Rightarrow> Inl e
      | FetchResponse st pdf \<Rightarrow>
          if \<not> ok st then Inl (JsError ''Error'' (''Failed fetching PDF: '' @ digits st))
          else Inr r) = Inr r"
    unfolding packageSteps_def Let_def
    by (auto dest!: attempt_Inr split: fetchOutcome.splits if_splits)
  with assms show ?thesis by (auto split: fetchOutcome.splits if_splits)
qed

lemma digits_404: "digits 404 = ''404''"
  by code_simp

section \<open>The configuration file\<close>

text \<open>
  C1, as stated: when the caller omits \<open>sidebarDefaultOpen\<close> (likewise
  \<open>slideSequenceLocked\<close>), the serialized configuration contains
  \<open>sidebarDefaultOpen: true\<close> (respectively \<open>slideSequenceLocked: true\<close>). For the
  configuration \<open>{title: "Intro"}\<close> neither text occurs in the output.
\<close>

theorem config_flags_default_counterexample:
  "\<not> produces (generateConfigJS (JObj [(''title'', JStr ''Intro'')]) ''content.pdf'')
        ''sidebarDefaultOpen: true''
   \<and> \<not> produces (generateConfigJS (JObj [(''title'', JStr ''Intro'')]) ''content.pdf'')
        ''slideSequenceLocked: true''"
proof -
  have r: "generateConfigJS (JObj [(''title'', JStr ''Intro'')]) ''content.pdf''
           = Inr (configTemplate ''Intro'' ''content.pdf'' ''false'' ''false'')"
    by (simp add: generateConfigJS_def escapeQuotes_def showBool_def)
  have a: "\<not> includesStr (configTemplate ''Intro'' ''content.pdf'' ''false'' ''false'')
               ''sidebarDefaultOpen: true''"
    unfolding configTemplate_def by (subst includesStr_joinWith_newline) simp_all
  have b: "\<not> includesStr (configTemplate ''Intro'' ''content.pdf'' ''false'' ''false'')
               ''slideSequenceLocked: true''"
    unfolding configTemplate_def by (subst includesStr_joinWith_newline) simp_all
  from a b show ?thesis by (simp add: r produces_def)
qed

text \<open>
  C1, amended: for every configuration whose title is absent, falsy or a string, the
  call returns, and when the caller omits \<open>sidebarDefaultOpen\<close> (likewise
  \<open>slideSequenceLocked\<close>) the missing value is coerced with \<open>Boolean\<close>, so the serialized
  configuration contains \<open>sidebarDefaultOpen: false\<close> (respectively
  \<open>slideSequenceLocked: false\<close>).
\<close>

theorem config_flags_omitted:
  assumes "\<not> truthy (getProp cfg ''title'') \<or> (\<exists>t. getProp cfg ''title'' = JStr t)"
  shows "(getProp cfg ''sidebarDefaultOpen'' = JUndefined \<longrightarrow>
            produces (generateConfigJS cfg pdf) ''sidebarDefaultOpen: false'')
       \<and> (getProp cfg ''slideSequenceLocked'' = JUndefined \<longrightarrow>
            produces (generateConfigJS cfg pdf) ''slideSequenceLocked: false'')"
proof -
  obtain t where r: "generateConfigJS cfg pdf =
      Inr (configTemplate t pdf (showBool (truthy (getProp cfg ''sidebarDefaultOpen'')))
             (showBool (truthy (getProp cfg ''slideSequenceLocked''))))"
    using generateConfigJS_returns [OF assms] by blast
  have f: "showBool False = ''false''" by (simp add: showBool_def)
  show ?thesis
  proof (intro conjI impI)
    assume u: "getProp cfg ''sidebarDefaultOpen'' = JUndefined"
    show "produces (generateConfigJS cfg pdf) ''sidebarDefaultOpen: false''"
      using configTemplate_flags(1) [of t pdf "''false''" "showBool (truthy (getProp cfg ''slideSequenceLocked''))"]
      by (simp add: r u produces_def f)
  next
    assume u: "getProp cfg ''slideSequenceLocked'' = JUndefined"
    show "produces (generateConfigJS cfg pdf) ''slideSequenceLocked: false''"
      using configTemplate_flags(2) [of t pdf "showBool (truthy (getProp cfg ''sidebarDefaultOpen''))" "''false''"]
      by (simp add: r u produces_def f)
  qed
qed

theorem config_flags_omitted_witness:
  "getProp (JObj [(''title'', JStr ''Intro'')]) ''title'' = JStr ''Intro''
   \<and> getProp (JObj [(''title'', JStr ''Intro'')]) ''sidebarDefaultOpen'' = JUndefined
   \<and> getProp (JObj [(''title'', JStr ''Intro'')]) ''slideSequenceLocked'' = JUndefined
   \<and> produces (generateConfigJS (JObj [(''title'', JStr ''Intro'')]) ''content.pdf'')
        ''sidebarDefaultOpen: false''
   \<and> produces (generateConfigJS (JObj [(''title'', JStr ''Intro'')]) ''content.pdf'')
        ''slideSequenceLocked: false''"
  using config_flags_omitted [of "JObj [(''title'', JStr ''Intro'')]" "''content.pdf''"]
  by simp

section \<open>Rendering\<close>

text \<open>
  C2: from a session with a document loaded, no render in flight and a page other
  than \<open>p\<close> on the canvas, \<open>renderPage(p)\<close> called twice, with any settling of promises
  in between (no sentinel reset, no other render), fetches the page once: the second
  call changes nothing, because \<open>isRendering\<close> is set or \<open>currPage\<close> is \<open>p\<close>. The canvas
  is resized and the raster started at most once, and exactly once when the page
  fetch and the raster succeed.
\<close>

theorem renderPage_twice_once:
  assumes "pdfDoc s \<noteq> None" and "\<not> isRendering s" and "currPage s \<noteq> p" and "pending s = []"
  shows "renderPage p (settle evs (renderPage p s)) = settle evs (renderPage p s)
    \<and> (isRendering (settle evs (renderPage p s)) \<or> currPage (settle evs (renderPage p s)) = p)
    \<and> occurrences isGetPage (renderPage p (settle evs (renderPage p s)))
          = occurrences isGetPage s + 1
    \<and> occurrences isSetCanvasSize (renderPage p (settle evs (renderPage p s)))
          \<le> occurrences isSetCanvasSize s + 1
    \<and> occurrences isPageRender (renderPage p (settle evs (renderPage p s)))
          \<le> occurrences isPageRender s + 1
    \<and> occurrences isSetCanvasSize
          (renderPage p (settle [PageResolved p w h, RasterResolved p] (renderPage p s)))
          = occurrences isSetCanvasSize s + 1
    \<and> occurrences isPageRender
          (renderPage p (settle [PageResolved p w h, RasterResolved p] (renderPage p s)))
          = occurrences isPageRender s + 1"
proof -
  let ?s2 = "settle evs (renderPage p s)"
  have full: "occurrences isSetCanvasSize
          (renderPage p (settle [PageResolved p w h, RasterResolved p] (renderPage p s)))
          = occurrences isSetCanvasSize s + 1
    \<and> occurrences isPageRender
          (renderPage p (settle [PageResolved p w h, RasterResolved p] (renderPage p s)))
          = occurrences isPageRender s + 1"
    using assms by (simp add: renderPage_def onPage_def onRendered_def Let_def)
  have inv: "inFlight p (occurrences isGetPage s) (occurrences isSetCanvasSize s)
               (occurrences isPageRender s) ?s2"
    using assms by (intro settle_inFlight renderPage_inFlight)
  then have same: "renderPage p ?s2 = ?s2"
    by (intro renderPage_suppressed) (simp add: inFlight_def)
  from inv have "(isRendering ?s2 \<or> currPage ?s2 = p)
    \<and> occurrences isGetPage ?s2 = occurrences isGetPage s + 1
    \<and> occurrences isSetCanvasSize ?s2 \<le> occurrences isSetCanvasSize s + 1
    \<and> occurrences isPageRender ?s2 \<le> occurrences isPageRender s + 1"
    by (auto simp: inFlight_def)
  with same full show ?thesis by simp
qed

theorem renderPage_twice_once_witness:
  "pdfDoc readyViewer \<noteq> None \<and> \<not> isRendering readyViewer \<and> currPage readyViewer \<noteq> 2
   \<and> pending readyViewer = []
   \<and> renderPage 2 (settle [PageResolved 2 (Fin 612) (Fin 792)] (renderPage 2 readyViewer))
       = settle [PageResolved 2 (Fin 612) (Fin 792)] (renderPage 2 readyViewer)
   \<and> occurrences isGetPage
        (renderPage 2 (settle [PageResolved 2 (Fin 612) (Fin 792)] (renderPage 2 readyViewer)))
       = occurrences isGetPage readyViewer + 1"
proof -
  have h: "pdfDoc readyViewer \<noteq> None" "\<not> isRendering readyViewer" "currPage readyViewer \<noteq> 2"
    "pending readyViewer = []"
    by (simp_all add: readyViewer_fields)
  from renderPage_twice_once [OF h, of "[PageResolved 2 (Fin 612) (Fin 792)]"] h
  show ?thesis by blast
qed

section \<open>The progress string\<close>

lemma encode_dense: "encode (map Some b) = map (\<lambda>v. if v then CHR ''1'' else CHR ''0'') b"
  by (induction b) (simp_all add: encode_def)

text \<open>
  C3: for every bitmap \<open>b\<close> (an array of booleans without holes) of length \<open>n\<close>,
  decoding the encoded string with the same page count gives \<open>b\<close> back.
\<close>

theorem decode_encode_roundtrip: "decode (encode (map Some b)) (length b) = map Some b"
proof (cases b)
  case Nil
  then show ?thesis by (simp add: encode_def decode_def)
next
  case (Cons x xs)
  have "map (\<lambda>c. Some (c = CHR ''1'')) (map (\<lambda>v. if v then CHR ''1'' else CHR ''0'') b) = map Some b"
    by (induction b) simp_all
  then show ?thesis by (simp add: encode_dense decode_def)
qed

text \<open>
  C4: for every persisted string \<open>s\<close> whose length differs from the page count \<open>n\<close>
  of the loaded document (the empty string included), decoding is total and gives the
  all-false bitmap of length \<open>n\<close>, and that is the bitmap the session starts with.
\<close>

theorem decode_length_mismatch:
  assumes "length s \<noteq> numPages pdf"
  shows "decode s (numPages pdf) = replicate (numPages pdf) (Some False)
       \<and> visitedPages (onDocumentLoaded pdf s lastLoc st) = replicate (numPages pdf) (Some False)"
  using assms by (simp add: decode_def onDocumentLoaded_def Let_def split: option.splits)

theorem decode_length_mismatch_witness:
  "length ''101'' \<noteq> numPages \<lparr>numPages = 5, url = ''data/content.pdf''\<rparr>
   \<and> decode ''101'' 5 = [Some False, Some False, Some False, Some False, Some False]
   \<and> visitedPages (onDocumentLoaded \<lparr>numPages = 5, url = ''data/content.pdf''\<rparr> ''101'' (Some 2)
         (initialViewer (Fin 1224) (Fin 792)))
       = [Some False, Some False, Some False, Some False, Some False]
   \<and> decode [] 2 = [Some False, Some False]"
  using decode_length_mismatch [of "''101''" "\<lparr>numPages = 5, url = ''data/content.pdf''\<rparr>" "Some 2"
          "initialViewer (Fin 1224) (Fin 792)"]
    decode_length_mismatch [of "[]" "\<lparr>numPages = 2, url = ''data/content.pdf''\<rparr>"]
  by (simp add: numeral_eq_Suc)

section \<open>Navigation\<close>

text \<open>
  C5: with a document loaded and \<open>currentPage\<close> within \<open>[1, totalPages]\<close>, \<open>next()\<close> and
  \<open>prev()\<close> keep it there; \<open>prev()\<close> at page 1 and \<open>next()\<close> at the last page change
  nothing at all; otherwise they move \<open>currentPage\<close> by exactly one and call
  \<open>renderPage(currentPage)\<close>.
\<close>

theorem navigation_clamps:
  assumes "pdfDoc s \<noteq> None" and "1 \<le> currentPage s" and "currentPage s \<le> totalPages s"
  shows "1 \<le> currentPage (playerViewer_next s)
    \<and> currentPage (playerViewer_next s) \<le> totalPages (playerViewer_next s)
    \<and> 1 \<le> currentPage (playerViewer_prev s)
    \<and> currentPage (playerViewer_prev s) \<le> totalPages (playerViewer_prev s)
    \<and> totalPages (playerViewer_next s) = totalPages s
    \<and> totalPages (playerViewer_prev s) = totalPages s
    \<and> (currentPage s = 1 \<longrightarrow> playerViewer_prev s = s)
    \<and> (currentPage s = totalPages s \<longrightarrow> playerViewer_next s = s)
    \<and> (currentPage s \<noteq> totalPages s \<longrightarrow>
          playerViewer_next s
            = renderPage (currentPage s + 1) (s\<lparr>currentPage := currentPage s + 1\<rparr>)
          \<and> currentPage (playerViewer_next s) = currentPage s + 1)
    \<and> (currentPage s \<noteq> 1 \<longrightarrow>
          playerViewer_prev s
            = renderPage (currentPage s - 1) (s\<lparr>currentPage := currentPage s - 1\<rparr>)
          \<and> currentPage (playerViewer_prev s) = currentPage s - 1)"
  using assms by (simp add: playerViewer_next_def playerViewer_prev_def)

theorem navigation_clamps_witness:
  "pdfDoc readyViewer \<noteq> None \<and> 1 \<le> currentPage readyViewer
   \<and> currentPage readyViewer \<le> totalPages readyViewer
   \<and> currentPage readyViewer = 1 \<and> playerViewer_prev readyViewer = readyViewer
   \<and> currentPage readyViewer \<noteq> totalPages readyViewer
   \<and> currentPage (playerViewer_next readyViewer) = 2
   \<and> currentPage (playerViewer_next (playerViewer_next readyViewer)) = 3
   \<and> currentPage (playerViewer_next (playerViewer_next (playerViewer_next readyViewer))) = 3"
proof -
  have h: "pdfDoc readyViewer \<noteq> None" "1 \<le> currentPage readyViewer"
    "currentPage readyViewer \<le> totalPages readyViewer"
    by (simp_all add: readyViewer_fields)
  have busy: "currentPage (playerViewer_next (playerViewer_next readyViewer)) = 3"
    "currentPage (playerViewer_next (playerViewer_next (playerViewer_next readyViewer))) = 3"
    by (simp_all add: playerViewer_next_def readyViewer_fields renderPage_def)
  from navigation_clamps [OF h] busy show ?thesis by (simp add: readyViewer_fields)
qed

section \<open>The render scale\<close>

text \<open>
  C6, as stated: for all positive page dimensions and positive viewport dimensions the
  scale equals \<open>min (vw / pdfW) (vh / pdfH)\<close>. For a viewport of 1024 by 1024 and a page
  of \<open>2 ^ -1020\<close> by \<open>2 ^ -1020\<close>, all four positive doubles, both quotients overflow
  to \<open>Infinity\<close>, the test \<open>!isFinite(scale)\<close> holds and the scale is 1, which is neither
  the exact minimum \<open>2 ^ 1030\<close> nor the computed one.
\<close>

theorem fitScale_overflow_counterexample:
  "(0::real) < 1024 \<and> 0 < pow2 (- 1020)
   \<and> fitScale (Fin 1024) (Fin 1024) (Fin (pow2 (- 1020))) (Fin (pow2 (- 1020))) = Fin 1
   \<and> mathMin (jsDiv (Fin 1024) (Fin (pow2 (- 1020)))) (jsDiv (Fin 1024) (Fin (pow2 (- 1020)))) = PInf
   \<and> min (1024 / pow2 (- 1020)) (1024 / pow2 (- 1020)) = pow2 1030
   \<and> fitScale (Fin 1024) (Fin 1024) (Fin (pow2 (- 1020))) (Fin (pow2 (- 1020)))
        \<noteq> Fin (min (1024 / pow2 (- 1020)) (1024 / pow2 (- 1020)))"
proof -
  have k: "(1024::real) = pow2 10" by (simp add: pow2_def)
  have q: "1024 / pow2 (- 1020) = pow2 1030"
    using pow2_diff [of 10 "- 1020"] by (simp add: k)
  have "overflowThreshold \<le> pow2 1030"
    using overflowThreshold_lt pow2_le_iff [of 1024 1030] by linarith
  then have "toDouble (pow2 1030) = PInf" by (rule toDouble_overflow)
  then have d: "jsDiv (Fin 1024) (Fin (pow2 (- 1020))) = PInf"
    by (simp add: jsDiv_pos q)
  have m: "mathMin PInf PInf = PInf" by (simp add: mathMin_def)
  have f: "fitScale (Fin 1024) (Fin 1024) (Fin (pow2 (- 1020))) (Fin (pow2 (- 1020))) = Fin 1"
    by (simp add: fitScale_def d m)
  have "pow2 1030 \<noteq> pow2 0" using pow2_less_iff [of 0 1030] by linarith
  then have n: "pow2 1030 \<noteq> 1" by (simp add: pow2_def)
  from f d m q n show ?thesis by simp
qed

text \<open>
  C6, amended: for positive page and viewport dimensions whose exact quotients
  \<open>vw / pdfW\<close> and \<open>vh / pdfH\<close> both lie between the least positive double \<open>2 ^ -1074\<close>
  and the overflow threshold \<open>2 ^ 1024 - 2 ^ 970\<close>, the scale is the minimum of the two
  quotients as doubles, each within half a unit in the last place of the exact
  quotient, and it is finite and positive. For any numbers whatsoever, the scale is
  exactly 1 when the computed minimum is not finite or not positive (which includes
  positive inputs whose quotients overflow or underflow), and the computed minimum
  otherwise.
\<close>

theorem fitScale_spec:
  "(0 < vw \<and> 0 < vh \<and> 0 < pdfW \<and> 0 < pdfH
      \<and> pow2 (- 1074) \<le> vw / pdfW \<and> vw / pdfW < overflowThreshold
      \<and> pow2 (- 1074) \<le> vh / pdfH \<and> vh / pdfH < overflowThreshold \<longrightarrow>
      fitScale (Fin vw) (Fin vh) (Fin pdfW) (Fin pdfH)
        = Fin (min (val (jsDiv (Fin vw) (Fin pdfW))) (val (jsDiv (Fin vh) (Fin pdfH))))
      \<and> 0 < min (val (jsDiv (Fin vw) (Fin pdfW))) (val (jsDiv (Fin vh) (Fin pdfH)))
      \<and> \<bar>val (jsDiv (Fin vw) (Fin pdfW)) - vw / pdfW\<bar> \<le> pow2 (binade (vw / pdfW) - 53)
      \<and> \<bar>val (jsDiv (Fin vh) (Fin pdfH)) - vh / pdfH\<bar> \<le> pow2 (binade (vh / pdfH) - 53))
   \<and> (\<not> isFinite (mathMin (jsDiv a c) (jsDiv b d)) \<or> jsLeZero (mathMin (jsDiv a c) (jsDiv b d))
        \<longrightarrow> fitScale a b c d = Fin 1)
   \<and> (isFinite (mathMin (jsDiv a c) (jsDiv b d)) \<and> \<not> jsLeZero (mathMin (jsDiv a c) (jsDiv b d))
        \<longrightarrow> fitScale a b c d = mathMin (jsDiv a c) (jsDiv b d))"
proof -
  have first: "fitScale (Fin vw) (Fin vh) (Fin pdfW) (Fin pdfH)
        = Fin (min (val (jsDiv (Fin vw) (Fin pdfW))) (val (jsDiv (Fin vh) (Fin pdfH))))
      \<and> 0 < min (val (jsDiv (Fin vw) (Fin pdfW))) (val (jsDiv (Fin vh) (Fin pdfH)))
      \<and> \<bar>val (jsDiv (Fin vw) (Fin pdfW)) - vw / pdfW\<bar> \<le> pow2 (binade (vw / pdfW) - 53)
      \<and> \<bar>val (jsDiv (Fin vh) (Fin pdfH)) - vh / pdfH\<bar> \<le> pow2 (binade (vh / pdfH) - 53)"
    if pos: "0 < vw" "0 < vh" "0 < pdfW" "0 < pdfH"
      and w: "pow2 (- 1074) \<le> vw / pdfW" "vw / pdfW < overflowThreshold"
      and h: "pow2 (- 1074) \<le> vh / pdfH" "vh / pdfH < overflowThreshold"
  proof -
    let ?rw = "real_of_int (roundHalfEven (vw / pdfW / pow2 (binade (vw / pdfW) - 52)))
                 * pow2 (binade (vw / pdfW) - 52)"
    let ?rh = "real_of_int (roundHalfEven (vh / pdfH / pow2 (binade (vh / pdfH) - 52)))
                 * pow2 (binade (vh / pdfH) - 52)"
    have dw: "jsDiv (Fin vw) (Fin pdfW) = Fin ?rw"
      using pos toDouble_in_range(1) [OF w] by (simp add: jsDiv_pos)
    have dh: "jsDiv (Fin vh) (Fin pdfH) = Fin ?rh"
      using pos toDouble_in_range(1) [OF h] by (simp add: jsDiv_pos)
    have pw: "0 < ?rw" by (rule toDouble_in_range(2) [OF w])
    have ph: "0 < ?rh" by (rule toDouble_in_range(2) [OF h])
    have ew: "\<bar>?rw - vw / pdfW\<bar> \<le> pow2 (binade (vw / pdfW) - 53)"
      by (rule toDouble_in_range(3) [OF w])
    have eh: "\<bar>?rh - vh / pdfH\<bar> \<le> pow2 (binade (vh / pdfH) - 53)"
      by (rule toDouble_in_range(3) [OF h])
    have m: "0 < min ?rw ?rh" using pw ph by simp
    then have "fitScale (Fin vw) (Fin vh) (Fin pdfW) (Fin pdfH) = Fin (min ?rw ?rh)"
      by (simp add: fitScale_def dw dh mathMin_Fin Let_def not_le)
    with m ew eh show ?thesis by (simp add: dw dh)
  qed
  have rest: "(\<not> isFinite (mathMin (jsDiv a c) (jsDiv b d)) \<or> jsLeZero (mathMin (jsDiv a c) (jsDiv b d))
        \<longrightarrow> fitScale a b c d = Fin 1)
   \<and> (isFinite (mathMin (jsDiv a c) (jsDiv b d)) \<and> \<not> jsLeZero (mathMin (jsDiv a c) (jsDiv b d))
        \<longrightarrow> fitScale a b c d = mathMin (jsDiv a c) (jsDiv b d))"
    by (simp add: fitScale_def Let_def)
  from first rest show ?thesis by blast
qed

theorem fitScale_spec_witness:
  "(0::real) < 2448 \<and> (0::real) < 1584 \<and> (0::real) < 612 \<and> (0::real) < 792
   \<and> pow2 (- 1074) \<le> 2448 / 612 \<and> 2448 / 612 < overflowThreshold
   \<and> pow2 (- 1074) \<le> 1584 / 792 \<and> 1584 / 792 < overflowThreshold
   \<and> fitScale (Fin 2448) (Fin 1584) (Fin 612) (Fin 792) = Fin 2
   \<and> \<not> isFinite (mathMin (jsDiv (Fin 800) (Fin 0)) (jsDiv (Fin 600) (Fin 0)))
   \<and> fitScale (Fin 800) (Fin 600) (Fin 0) (Fin 0) = Fin 1
   \<and> jsLeZero (mathMin (jsDiv (Fin 0) (Fin 612)) (jsDiv (Fin 0) (Fin 792)))
   \<and> fitScale (Fin 0) (Fin 0) (Fin 612) (Fin 792) = Fin 1"
proof -
  have p: "(0::real) < 2448 \<and> (0::real) < 1584 \<and> (0::real) < 612 \<and> (0::real) < 792"
    by simp
  have qw: "(2448::real) / 612 = pow2 2" and qh: "(1584::real) / 792 = pow2 1"
    by (simp_all add: pow2_def)
  have rw: "pow2 (- 1074) \<le> (2448::real) / 612" "(2448::real) / 612 < overflowThreshold"
    unfolding qw by (simp_all add: pow2_below_threshold)
  have rh: "pow2 (- 1074) \<le> (1584::real) / 792" "(1584::real) / 792 < overflowThreshold"
    unfolding qh by (simp_all add: pow2_below_threshold)
  have "toDouble (2448 / 612) = Fin (2448 / 612)"
    unfolding qw by (rule toDouble_pow2) simp_all
  then have dw: "jsDiv (Fin 2448) (Fin 612) = Fin 4" by (simp add: jsDiv_def)
  have "toDouble (1584 / 792) = Fin (1584 / 792)"
    unfolding qh by (rule toDouble_pow2) simp_all
  then have dh: "jsDiv (Fin 1584) (Fin 792) = Fin 2" by (simp add: jsDiv_def)
  have i: "\<not> isFinite (mathMin (jsDiv (Fin 800) (Fin 0)) (jsDiv (Fin 600) (Fin 0)))"
    by (simp add: jsDiv_def mathMin_def signedInf_def)
  have z: "jsLeZero (mathMin (jsDiv (Fin 0) (Fin 612)) (jsDiv (Fin 0) (Fin 792)))"
    by (simp add: jsDiv_def mathMin_def signedZero_def)
  from fitScale_spec [of 2448 1584 612 792 "Fin 800" "Fin 0" "Fin 600" "Fin 0"] p rw rh i
  have "fitScale (Fin 2448) (Fin 1584) (Fin 612) (Fin 792)
          = Fin (min (val (jsDiv (Fin 2448) (Fin 612))) (val (jsDiv (Fin 1584) (Fin 792))))"
    and b: "fitScale (Fin 800) (Fin 600) (Fin 0) (Fin 0) = Fin 1"
    by blast+
  then have a: "fitScale (Fin 2448) (Fin 1584) (Fin 612) (Fin 792) = Fin 2"
    by (simp add: dw dh)
  from fitScale_spec [of 2448 1584 612 792 "Fin 0" "Fin 612" "Fin 0" "Fin 792"] z
  have c: "fitScale (Fin 0) (Fin 0) (Fin 612) (Fin 792) = Fin 1"
    by blast
  from p rw rh a i b z c show ?thesis by blast
qed

section \<open>Package building\<close>

text \<open>
  C7: whenever the fetch of the source PDF rejects or answers with a status outside
  200-299, the response carries no archive and none of the archive's headers; its
  status is 500, the error response of the \<open>catch\<close> block, for every request that
  names a PDF (a request without \<open>pdfUrl\<close> is refused with 400 before any fetch).
\<close>

theorem package_fetch_failure:
  assumes "fetchFailed (fetch env (getProp reqBody ''pdfUrl''))"
  shows "\<not> isArchive (body (postPackage env reqBody))
       \<and> headers (postPackage env reqBody) = []
       \<and> (status (postPackage env reqBody) = 500 \<or> status (postPackage env reqBody) = 400)
       \<and> (truthy (getProp reqBody ''pdfUrl'') \<longrightarrow> status (postPackage env reqBody) = 500)"
proof -
  obtain e where "packageSteps env (getProp reqBody ''pdfUrl'') (getProp reqBody ''config'') = Inl e"
    using packageSteps_fetch_failure [OF assms] by blast
  then show ?thesis by (simp add: postPackage_def packageTry_def Let_def)
qed

theorem package_fetch_failure_witness:
  "fetchFailed (fetch notFoundEnv (getProp packageRequest ''pdfUrl''))
   \<and> truthy (getProp packageRequest ''pdfUrl'')
   \<and> \<not> isArchive (body (postPackage notFoundEnv packageRequest))
   \<and> status (postPackage notFoundEnv packageRequest) = 500
   \<and> body (postPackage notFoundEnv packageRequest)
       = Text ''Package generation error: Failed fetching PDF: 404''"
proof -
  have h: "fetchFailed (fetch notFoundEnv (getProp packageRequest ''pdfUrl''))"
    by (simp add: notFoundEnv_def ok_def)
  have t: "truthy (getProp packageRequest ''pdfUrl'')"
    by (simp add: packageRequest_def)
  have b: "body (postPackage notFoundEnv packageRequest)
       = Text ''Package generation error: Failed fetching PDF: 404''"
    by (simp add: postPackage_def packageTry_def packageSteps_def notFoundEnv_def
          packageRequest_def ok_def digits_404)
  from package_fetch_failure [OF h] h t b show ?thesis by simp
qed

text \<open>
  C8: the manifest must carry the title escaped for markup. \<open>generateManifest\<close> inserts
  it as it is: for the title \<open>A & B <Intro>\<close> the manifest contains the raw text between
  the \<open>title\<close> tags and no entity at all.
\<close>

theorem manifest_title_not_escaped:
  \<open>includesStr (generateManifest ''pkg_1'' ''A & B <Intro>'' ''index_lms.html'' [''player.html''])
      ''<title>A & B <Intro></title>''
   \<and> \<not> includesStr (generateManifest ''pkg_1'' ''A & B <Intro>'' ''index_lms.html'' [''player.html''])
      ''&amp;''
   \<and> \<not> includesStr (generateManifest ''pkg_1'' ''A & B <Intro>'' ''index_lms.html'' [''player.html''])
      ''&lt;''\<close>
proof -
  have a: \<open>includesStr (generateManifest ''pkg_1'' ''A & B <Intro>'' ''index_lms.html'' [''player.html''])
      ''<title>A & B <Intro></title>''\<close>
    unfolding generateManifest_def Let_def by (subst includesStr_joinWith_newline) simp_all
  have b: \<open>\<not> includesStr (generateManifest ''pkg_1'' ''A & B <Intro>'' ''index_lms.html'' [''player.html''])
      ''&amp;''\<close>
    unfolding generateManifest_def Let_def by (subst includesStr_joinWith_newline) simp_all
  have c: \<open>\<not> includesStr (generateManifest ''pkg_1'' ''A & B <Intro>'' ''index_lms.html'' [''player.html''])
      ''&lt;''\<close>
    unfolding generateManifest_def Let_def by (subst includesStr_joinWith_newline) simp_all
  from a b c show ?thesis by simp
qed

section \<open>Failed renders and the absent document\<close>

text \<open>
  C9: when the render of page \<open>p\<close> fails, at the page fetch or at the raster,
  \<open>isRendering\<close> is cleared, \<open>currPage\<close> stays \<open>p\<close> (it is not reset to the sentinel), no
  page is marked visited, and \<open>renderPage(p)\<close> called next changes nothing.
\<close>

theorem failed_render_blocks_retry:
  assumes "pdfDoc s \<noteq> None" and "\<not> isRendering s" and "currPage s \<noteq> p"
  shows "(let s1 = settle [PageRejected p] (renderPage p s)
          in \<not> isRendering s1 \<and> currPage s1 = p \<and> visitedPages s1 = visitedPages s
             \<and> renderPage p s1 = s1)
       \<and> (let s2 = settle [PageResolved p w h, RasterRejected p] (renderPage p s)
          in \<not> isRendering s2 \<and> currPage s2 = p \<and> visitedPages s2 = visitedPages s
             \<and> renderPage p s2 = s2)"
proof -
  let ?s1 = "settle [PageRejected p] (renderPage p s)"
  let ?s2 = "settle [PageResolved p w h, RasterRejected p] (renderPage p s)"
  have a: "\<not> isRendering ?s1 \<and> currPage ?s1 = p \<and> visitedPages ?s1 = visitedPages s"
    using assms by (simp add: renderPage_def onPageError_def)
  then have a': "renderPage p ?s1 = ?s1" by (intro renderPage_suppressed) simp
  have b: "\<not> isRendering ?s2 \<and> currPage ?s2 = p \<and> visitedPages ?s2 = visitedPages s"
    using assms by (simp add: renderPage_def onPage_def onRenderError_def Let_def)
  then have b': "renderPage p ?s2 = ?s2" by (intro renderPage_suppressed) simp
  from a a' b b' show ?thesis by (simp add: Let_def)
qed

theorem failed_render_blocks_retry_witness:
  "pdfDoc readyViewer \<noteq> None \<and> \<not> isRendering readyViewer \<and> currPage readyViewer \<noteq> 2
   \<and> currPage (settle [PageRejected 2] (renderPage 2 readyViewer)) = 2
   \<and> \<not> isRendering (settle [PageRejected 2] (renderPage 2 readyViewer))
   \<and> renderPage 2 (settle [PageRejected 2] (renderPage 2 readyViewer))
       = settle [PageRejected 2] (renderPage 2 readyViewer)"
proof -
  have h: "pdfDoc readyViewer \<noteq> None" "\<not> isRendering readyViewer" "currPage readyViewer \<noteq> 2"
    by (simp_all add: readyViewer_fields)
  from failed_render_blocks_retry [OF h, of "Fin 612" "Fin 792"] h
  show ?thesis unfolding Let_def by blast
qed

text \<open>
  C10: while no document is loaded, \<open>renderPage(p)\<close> for any \<open>p\<close>, \<open>next()\<close> and \<open>prev()\<close>
  return the session as it was: no variable, no pending promise and no effect is added.
\<close>

theorem no_document_noop:
  "pdfDoc s = None \<Longrightarrow>
     renderPage p s = s \<and> playerViewer_next s = s \<and> playerViewer_prev s = s"
  by (simp add: renderPage_def playerViewer_next_def playerViewer_prev_def)

theorem no_document_noop_witness:
  "pdfDoc (initialViewer (Fin 1224) (Fin 792)) = None
   \<and> renderPage 1 (initialViewer (Fin 1224) (Fin 792)) = initialViewer (Fin 1224) (Fin 792)
   \<and> playerViewer_next (initialViewer (Fin 1224) (Fin 792)) = initialViewer (Fin 1224) (Fin 792)
   \<and> pdfDoc (playerViewer_destroy readyViewer) = None
   \<and> renderPage 2 (playerViewer_destroy readyViewer) = playerViewer_destroy readyViewer
   \<and> playerViewer_prev (playerViewer_destroy readyViewer) = playerViewer_destroy readyViewer"
proof -
  have h: "pdfDoc (initialViewer (Fin 1224) (Fin 792)) = None"
    by (simp add: initialViewer_def)
  have k: "pdfDoc (playerViewer_destroy readyViewer) = None"
    by (simp add: playerViewer_destroy_def destroyPdfDoc_def)
  from no_document_noop [OF h, of 1] no_document_noop [OF k, of 2] h k
  show ?thesis by blast
qed

end
